theory Spec2Isabelle
  imports Complex_Main
begin

section \<open>The voxel engine (src/services/voxelEngine.ts)\<close>

text \<open>
  A shallow embedding of the simulation core of \<^verbatim>\<open>VoxelEngine\<close>. JavaScript numbers are
  modelled as mathematical reals (no rounding), integer loop counters and grid coordinates
  as integers. The one place where the rounding of a double decides what the program
  builds is the terrain height, a sum of floors of multiples of \<^verbatim>\<open>Math.sin\<close> and
  \<^verbatim>\<open>Math.cos\<close>: there the sine, the cosine and the multiplication are those of the
  platform, which the state carries and nothing constrains. The scene graph, the renderer
  and the audio context are presentation only and are left out; \<^verbatim>\<open>Math.random\<close>, the
  event-listener registry of the window, the pending animation frame and the host
  callbacks are explicit parts of the state.
\<close>

subsection \<open>Configuration\<close>

definition CHUNK_SIZE :: int where "CHUNK_SIZE = 16"
definition VIEW_DISTANCE :: int where "VIEW_DISTANCE = 4"
definition GRAVITY :: real where "GRAVITY = 40"
definition JUMP_FORCE :: real where "JUMP_FORCE = 16"
definition MOVE_SPEED :: real where "MOVE_SPEED = 12"
definition SPRINT_SPEED :: real where "SPRINT_SPEED = 20"
definition DRAG :: real where "DRAG = 8"

lemmas config_defs =
  CHUNK_SIZE_def VIEW_DISTANCE_def GRAVITY_def JUMP_FORCE_def MOVE_SPEED_def
  SPRINT_SPEED_def DRAG_def

subsection \<open>Data model\<close>

datatype material = Grass | Dirt | Stone | Fragile

text \<open>The colour of each entry of \<^verbatim>\<open>materials\<close>.\<close>

fun materialColor :: "material \<Rightarrow> nat" where
  "materialColor Grass = 0x44d62c"
| "materialColor Dirt = 0xd6882c"
| "materialColor Stone = 0x888888"
| "materialColor Fragile = 0xff4d4d"

text \<open>
  The key of \<^verbatim>\<open>blocks\<close> is the string \<^verbatim>\<open>`${x},${y},${z}`\<close> of three integers, which
  determines the three integers; the model uses the triple itself.
\<close>

type_synonym coord = "int \<times> int \<times> int"

record vec3 =
  xv :: real
  yv :: real
  zv :: real

text \<open>A block mesh: its \<^verbatim>\<open>userData = { type, key }\<close>; its position is the key.\<close>

record block =
  btype :: material
  bkey :: coord

definition blockPosition :: "block \<Rightarrow> vec3" where
  "blockPosition b =
     (case bkey b of (x, y, z) \<Rightarrow>
        \<lparr>xv = real_of_int x, yv = real_of_int y, zv = real_of_int z\<rparr>)"

record particle =
  ppos :: vec3
  pvel :: vec3
  life :: real
  rotx :: real
  rotz :: real
  pscale :: real
  pcolor :: nat

record player =
  position :: vec3
  velocity :: vec3
  onGround :: bool
  canDoubleJump :: bool

record input =
  input_f :: int
  input_r :: int
  input_sprint :: bool

record stats =
  score :: real
  time :: real

record vec2 =
  mx :: real
  my :: real

text \<open>
  The floating-point operations of the platform that the terrain height uses:
  \<^verbatim>\<open>Math.sin\<close>, \<^verbatim>\<open>Math.cos\<close> and the multiplication of two doubles.
\<close>

record platform =
  Math_sin :: "real \<Rightarrow> real"
  Math_cos :: "real \<Rightarrow> real"
  fmul :: "real \<Rightarrow> real \<Rightarrow> real"

datatype listener = OnKeyDown | OnKeyUp | OnMouseDown | OnMouseMove | OnResize | OnUnlock

record engine =
  active :: bool
  lastTime :: real
  blocks :: "coord \<rightharpoonup> block"
  chunksGenerated :: "int set"
  particles :: "particle list"
  stats :: stats
  player :: player
  input :: input
  mouse :: vec2
  camera :: vec2
  rnd :: "nat \<Rightarrow> real"
  rndPos :: nat
  listeners :: "listener set"
  frameRequested :: bool
  pointerLocked :: bool
  deaths :: nat
  unlocks :: nat
  statsUpdates :: "stats list"
  platform :: platform

text \<open>
  \<^verbatim>\<open>Math.random()\<close>: the source of random numbers is the sequence \<open>rnd\<close>, of which
  \<open>rndPos\<close> values have been drawn.
\<close>

definition random :: "engine \<Rightarrow> real \<times> engine" where
  "random s = (rnd s (rndPos s), s\<lparr>rndPos := Suc (rndPos s)\<rparr>)"

subsection \<open>The voxel grid\<close>

definition hasBlock :: "coord \<Rightarrow> engine \<Rightarrow> bool" where
  "hasBlock key s = (blocks s key \<noteq> None)"

definition createBlock :: "int \<Rightarrow> int \<Rightarrow> int \<Rightarrow> material \<Rightarrow> engine \<Rightarrow> engine" where
  "createBlock x y z t s =
     (let key = (x, y, z) in
      if hasBlock key s then s
      else s\<lparr>blocks := (blocks s)(key \<mapsto> \<lparr>btype = t, bkey = key\<rparr>)\<rparr>)"

text \<open>\<^verbatim>\<open>this.blocks.delete(key)\<close>, the removal of \<^verbatim>\<open>destroyBlock\<close>.\<close>

definition deleteBlock :: "coord \<Rightarrow> engine \<Rightarrow> engine" where
  "deleteBlock key s = s\<lparr>blocks := (blocks s)(key := None)\<rparr>"

subsection \<open>Particles\<close>

fun spawnParticles :: "vec3 \<Rightarrow> nat \<Rightarrow> nat \<Rightarrow> engine \<Rightarrow> engine" where
  "spawnParticles pos 0 colorHex s = s"
| "spawnParticles pos (Suc n) colorHex s =
     (let (r1, s1) = random s;
          (r2, s2) = random s1;
          (r3, s3) = random s2;
          mesh = \<lparr>ppos = pos,
                  pvel = \<lparr>xv = (r1 - 0.5) * 5, yv = (r2 - 0.5) * 5 + 2, zv = (r3 - 0.5) * 5\<rparr>,
                  life = 1.0, rotx = 0, rotz = 0, pscale = 1, pcolor = colorHex\<rparr>
      in spawnParticles pos n colorHex (s3\<lparr>particles := particles s3 @ [mesh]\<rparr>))"

text \<open>One iteration of the particle loop of \<^verbatim>\<open>animate\<close>, before the removal test.\<close>

definition ageParticle :: "real \<Rightarrow> particle \<Rightarrow> particle" where
  "ageParticle delta p =
     (let life' = life p - delta * 2;
          vel' = (pvel p)\<lparr>yv := yv (pvel p) - GRAVITY * delta * 0.5\<rparr>;
          pos' = \<lparr>xv = xv (ppos p) + xv vel' * delta,
                  yv = yv (ppos p) + yv vel' * delta,
                  zv = zv (ppos p) + zv vel' * delta\<rparr>
      in p\<lparr>life := life', pvel := vel', ppos := pos',
           rotx := rotx p + delta * 5, rotz := rotz p + delta * 5,
           pscale := life' * 0.2\<rparr>)"

text \<open>
  The loop \<^verbatim>\<open>for (let i = this.particles.length - 1; i >= 0; i--)\<close>: the first argument
  counts the indices still to visit, so the index visited is one below it.
\<close>

fun updateParticles :: "nat \<Rightarrow> real \<Rightarrow> particle list \<Rightarrow> particle list" where
  "updateParticles 0 delta ps = ps"
| "updateParticles (Suc i) delta ps =
     (let p = ageParticle delta (ps ! i) in
      if life p \<le> 0 then updateParticles i delta (take i ps @ drop (Suc i) ps)
      else updateParticles i delta (ps[i := p]))"

definition tickParticles :: "real \<Rightarrow> particle list \<Rightarrow> particle list" where
  "tickParticles delta ps = updateParticles (length ps) delta ps"

subsection \<open>Terrain\<close>

definition terrainHeight :: "platform \<Rightarrow> int \<Rightarrow> int" where
  "terrainHeight pf worldX =
     (let height = \<lfloor>fmul pf (Math_sin pf (fmul pf (real_of_int worldX) 0.1)) 2\<rfloor>
                   + \<lfloor>fmul pf (Math_cos pf (fmul pf (real_of_int worldX) 0.5)) 1\<rfloor>
      in if height < - 2 then - 2 else height)"

definition fillColumn :: "int \<Rightarrow> int \<Rightarrow> engine \<Rightarrow> engine" where
  "fillColumn worldX height s =
     fold (\<lambda>y. createBlock worldX y 0 (if y = height then Grass else Dirt)) [- 4..height] s"

definition fragileObstacle :: "int \<Rightarrow> int \<Rightarrow> int \<Rightarrow> engine \<Rightarrow> engine" where
  "fragileObstacle x worldX height s =
     (let (r1, s1) = random s in
      if r1 > 0.7 \<and> x > 2 then
        (let (r2, s2) = random s1;
             h = height + 1 + \<lfloor>r2 * 3\<rfloor>;
             s3 = createBlock worldX h 0 Fragile s2;
             (r3, s4) = random s3
         in if r3 > 0.5 then createBlock worldX (h + 1) 0 Fragile s4 else s4)
      else s1)"

definition stonePlatform :: "int \<Rightarrow> int \<Rightarrow> engine \<Rightarrow> engine" where
  "stonePlatform worldX height s =
     (let (r, s1) = random s in
      if r > 0.85 then
        (let py = height + 4 in
         createBlock (worldX + 1) py 0 Stone (createBlock worldX py 0 Stone s1))
      else s1)"

text \<open>The body of the loop over \<open>x\<close> of \<^verbatim>\<open>generateChunk\<close>.\<close>

definition generateColumn :: "int \<Rightarrow> int \<Rightarrow> engine \<Rightarrow> engine" where
  "generateColumn offset x s =
     (let worldX = offset + x;
          height = terrainHeight (platform s) worldX
      in stonePlatform worldX height
           (fragileObstacle x worldX height (fillColumn worldX height s)))"

definition generateChunk :: "int \<Rightarrow> engine \<Rightarrow> engine" where
  "generateChunk cx s = fold (generateColumn (cx * CHUNK_SIZE)) [0..CHUNK_SIZE - 1] s"

definition playerChunkX :: "engine \<Rightarrow> int" where
  "playerChunkX s = \<lfloor>xv (position (player s)) / real_of_int CHUNK_SIZE\<rfloor>"

text \<open>The body of the loop over \<open>i\<close> of \<^verbatim>\<open>updateChunks\<close>, for the chunk index \<open>cx\<close>.\<close>

definition ensureChunk :: "int \<Rightarrow> engine \<Rightarrow> engine" where
  "ensureChunk cx s =
     (if cx \<notin> chunksGenerated s then
        (let s1 = generateChunk cx s in s1\<lparr>chunksGenerated := insert cx (chunksGenerated s1)\<rparr>)
      else s)"

definition updateChunks :: "engine \<Rightarrow> engine" where
  "updateChunks s =
     (let pcx = playerChunkX s in
      fold (\<lambda>i. ensureChunk (pcx + i)) [- 1..VIEW_DISTANCE] s)"

subsection \<open>Jumping and destroying blocks\<close>

definition handleJump :: "engine \<Rightarrow> engine" where
  "handleJump s =
     (if \<not> active s then s
      else if onGround (player s) then
        s\<lparr>player := (player s)\<lparr>velocity := (velocity (player s))\<lparr>yv := JUMP_FORCE\<rparr>,
                                onGround := False, canDoubleJump := True\<rparr>\<rparr>
      else if canDoubleJump (player s) then
        spawnParticles (position (player s)) 5 0xffffff
          (s\<lparr>player := (player s)\<lparr>velocity := (velocity (player s))\<lparr>yv := JUMP_FORCE * 0.8\<rparr>,
                                  canDoubleJump := False\<rparr>\<rparr>)
      else s)"

text \<open>
  The ray test is done by the scene library: \<open>hit\<close> is its first intersection, the block
  mesh that was hit and the distance, or \<open>None\<close> when the ray meets no block.
\<close>

definition destroyBlock :: "(block \<times> real) option \<Rightarrow> engine \<Rightarrow> engine" where
  "destroyBlock hit s =
     (if \<not> active s then s
      else case hit of
        None \<Rightarrow> s
      | Some (object, distance) \<Rightarrow>
          if distance < 20 then
            (let s1 = spawnParticles (blockPosition object) 8 (materialColor (btype object)) s;
                 s2 = deleteBlock (bkey object) s1;
                 s3 = s2\<lparr>stats := (stats s2)\<lparr>score := score (stats s2) + 10\<rparr>\<rparr>
             in s3\<lparr>statsUpdates := statsUpdates s3 @ [stats s3]\<rparr>)
          else s)"

subsection \<open>Physics\<close>

datatype axis = AxisX | AxisY

text \<open>The body of the two nested loops of \<^verbatim>\<open>checkCollision\<close>, for the cell \<open>(x, y, minZ)\<close>.\<close>

definition collideCell :: "axis \<Rightarrow> (coord \<rightharpoonup> block) \<Rightarrow> int \<Rightarrow> int \<Rightarrow> int \<Rightarrow> player \<Rightarrow> player" where
  "collideCell ax bs x y minZ pl =
     (if bs (x, y, minZ) \<noteq> None then
        (case ax of
           AxisX \<Rightarrow>
             pl\<lparr>position := (position pl)\<lparr>xv :=
                    (if xv (velocity pl) > 0 then real_of_int x - 0.35 - 0.5
                     else real_of_int x + 0.5 + 0.35)\<rparr>,
                velocity := (velocity pl)\<lparr>xv := 0\<rparr>\<rparr>
         | AxisY \<Rightarrow>
             if yv (velocity pl) > 0 then
               pl\<lparr>position := (position pl)\<lparr>yv := real_of_int y - 0.4 - 0.5\<rparr>,
                  velocity := (velocity pl)\<lparr>yv := 0\<rparr>\<rparr>
             else
               pl\<lparr>position := (position pl)\<lparr>yv := real_of_int y + 0.5 + 0.4\<rparr>,
                  velocity := (velocity pl)\<lparr>yv := 0\<rparr>,
                  onGround := True\<rparr>)
      else pl)"

definition checkCollision :: "axis \<Rightarrow> (coord \<rightharpoonup> block) \<Rightarrow> player \<Rightarrow> player" where
  "checkCollision ax bs pl =
     (let p = position pl;
          minX = \<lfloor>xv p - 0.35\<rfloor>;
          maxX = \<lfloor>xv p + 0.35\<rfloor>;
          minY = \<lfloor>yv p - 0.4\<rfloor>;
          maxY = \<lfloor>yv p + 0.4\<rfloor>;
          minZ = 0
      in fold (\<lambda>x. fold (\<lambda>y. collideCell ax bs x y minZ) [minY..maxY]) [minX..maxX] pl)"

text \<open>Lines 259 to 278 of \<^verbatim>\<open>updatePhysics\<close>: what the step does to the player.\<close>

definition movePlayer :: "real \<Rightarrow> input \<Rightarrow> (coord \<rightharpoonup> block) \<Rightarrow> player \<Rightarrow> player" where
  "movePlayer dt inp bs pl =
     (let speed = (if input_sprint inp then SPRINT_SPEED else MOVE_SPEED);
          vx1 = (if input_r inp \<noteq> 0
                 then xv (velocity pl) + real_of_int (input_r inp) * speed * dt * 5
                 else xv (velocity pl) - xv (velocity pl) * DRAG * dt);
          vx2 = max (min vx1 speed) (- speed);
          vy1 = yv (velocity pl) - GRAVITY * dt;
          pl1 = pl\<lparr>velocity := (velocity pl)\<lparr>xv := vx2, yv := vy1\<rparr>\<rparr>;
          pl2 = pl1\<lparr>position := (position pl1)\<lparr>xv := xv (position pl1) + xv (velocity pl1) * dt\<rparr>\<rparr>;
          pl3 = checkCollision AxisX bs pl2;
          pl4 = pl3\<lparr>position := (position pl3)\<lparr>yv := yv (position pl3) + yv (velocity pl3) * dt\<rparr>\<rparr>
      in checkCollision AxisY bs pl4)"

definition updatePhysics :: "real \<Rightarrow> engine \<Rightarrow> engine" where
  "updatePhysics dt s =
     (let s1 = s\<lparr>player := movePlayer dt (input s) (blocks s) (player s)\<rparr> in
      if yv (position (player s1)) < - 10 then
        s1\<lparr>active := False, deaths := Suc (deaths s1), pointerLocked := False\<rparr>
      else s1)"

subsection \<open>The frame loop and the events\<close>

definition animate :: "real \<Rightarrow> engine \<Rightarrow> engine" where
  "animate now s0 =
     (let s = s0\<lparr>frameRequested := True\<rparr>;
          delta = min ((now - lastTime s) / 1000) 0.1;
          s1 = s\<lparr>lastTime := now\<rparr>
      in if active s1 then
           (let s2 = updatePhysics delta s1;
                s3 = s2\<lparr>particles := tickParticles delta (particles s2)\<rparr>;
                targetX = xv (position (player s3)) + 5;
                targetY = max (yv (position (player s3)) + 2) 5;
                s4 = s3\<lparr>camera := \<lparr>mx = mx (camera s3) + (targetX - mx (camera s3)) * 5 * delta,
                                   my = my (camera s3) + (targetY - my (camera s3)) * 5 * delta\<rparr>\<rparr>;
                s5 = updateChunks s4;
                s6 = s5\<lparr>stats := \<lparr>score = score (stats s5) + delta * 10,
                                  time = time (stats s5) + delta\<rparr>\<rparr>
            in s6\<lparr>statsUpdates := statsUpdates s6 @ [stats s6]\<rparr>)
         else s1)"

definition lock :: "real \<Rightarrow> engine \<Rightarrow> engine" where
  "lock now s = s\<lparr>active := True, lastTime := now, pointerLocked := True\<rparr>"

text \<open>The listener of the \<^verbatim>\<open>unlock\<close> event of the controls, registered by \<^verbatim>\<open>init\<close>.\<close>

definition onUnlock :: "engine \<Rightarrow> engine" where
  "onUnlock s = s\<lparr>active := False, unlocks := Suc (unlocks s)\<rparr>"

datatype keycode =
  ArrowUp | KeyW | ArrowLeft | KeyA | ArrowDown | KeyS | ArrowRight | KeyD
  | ShiftLeft | Space | OtherKey

fun onKey :: "keycode \<Rightarrow> bool \<Rightarrow> engine \<Rightarrow> engine" where
  "onKey ArrowUp v s = s\<lparr>input := (input s)\<lparr>input_f := (if v then 1 else 0)\<rparr>\<rparr>"
| "onKey KeyW v s = s\<lparr>input := (input s)\<lparr>input_f := (if v then 1 else 0)\<rparr>\<rparr>"
| "onKey ArrowLeft v s = s\<lparr>input := (input s)\<lparr>input_r := (if v then - 1 else 0)\<rparr>\<rparr>"
| "onKey KeyA v s = s\<lparr>input := (input s)\<lparr>input_r := (if v then - 1 else 0)\<rparr>\<rparr>"
| "onKey ArrowDown v s = s\<lparr>input := (input s)\<lparr>input_f := (if v then - 1 else 0)\<rparr>\<rparr>"
| "onKey KeyS v s = s\<lparr>input := (input s)\<lparr>input_f := (if v then - 1 else 0)\<rparr>\<rparr>"
| "onKey ArrowRight v s = s\<lparr>input := (input s)\<lparr>input_r := (if v then 1 else 0)\<rparr>\<rparr>"
| "onKey KeyD v s = s\<lparr>input := (input s)\<lparr>input_r := (if v then 1 else 0)\<rparr>\<rparr>"
| "onKey ShiftLeft v s = s\<lparr>input := (input s)\<lparr>input_sprint := v\<rparr>\<rparr>"
| "onKey Space v s = (if v then handleJump s else s)"
| "onKey OtherKey v s = s"

definition onMouseMove :: "real \<Rightarrow> real \<Rightarrow> real \<Rightarrow> real \<Rightarrow> engine \<Rightarrow> engine" where
  "onMouseMove movementX movementY innerWidth innerHeight s =
     (if \<not> active s then s
      else
        (let x1 = mx (mouse s) + movementX;
             y1 = my (mouse s) + movementY;
             limitX = innerWidth / 2;
             limitY = innerHeight / 2
         in s\<lparr>mouse := \<lparr>mx = max (- limitX) (min limitX x1),
                        my = max (- limitY) (min limitY y1)\<rparr>\<rparr>))"

text \<open>\<^verbatim>\<open>onResize\<close> touches the camera projection and the renderer only.\<close>

definition onResize :: "engine \<Rightarrow> engine" where
  "onResize s = s"

definition setupInputs :: "engine \<Rightarrow> engine" where
  "setupInputs s =
     s\<lparr>listeners := listeners s \<union> {OnKeyDown, OnKeyUp, OnMouseDown, OnMouseMove, OnResize}\<rparr>"

definition dispose :: "engine \<Rightarrow> engine" where
  "dispose s = s\<lparr>frameRequested := False, listeners := listeners s - {OnResize}\<rparr>"

text \<open>
  The field initialisers of the class, on the platform \<open>pf\<close> and for the random sequence
  \<open>rs\<close>.
\<close>

definition fresh :: "platform \<Rightarrow> (nat \<Rightarrow> real) \<Rightarrow> engine" where
  "fresh pf rs =
     \<lparr>active = False, lastTime = 0, blocks = Map.empty, chunksGenerated = {},
      particles = [], stats = \<lparr>score = 0, time = 0\<rparr>,
      player = \<lparr>position = \<lparr>xv = 0, yv = 0, zv = 0\<rparr>, velocity = \<lparr>xv = 0, yv = 0, zv = 0\<rparr>,
                onGround = False, canDoubleJump = False\<rparr>,
      input = \<lparr>input_f = 0, input_r = 0, input_sprint = False\<rparr>,
      mouse = \<lparr>mx = 0, my = 0\<rparr>, camera = \<lparr>mx = 0, my = 0\<rparr>,
      rnd = rs, rndPos = 0, listeners = {}, frameRequested = False, pointerLocked = False,
      deaths = 0, unlocks = 0, statsUpdates = [], platform = pf\<rparr>"

text \<open>The constructor: \<^verbatim>\<open>init\<close> at the time \<open>now\<close>.\<close>

definition init :: "platform \<Rightarrow> (nat \<Rightarrow> real) \<Rightarrow> real \<Rightarrow> engine" where
  "init pf rs now =
     (let s0 = fresh pf rs;
          s1 = s0\<lparr>camera := \<lparr>mx = 0, my = 5\<rparr>\<rparr>;
          s2 = s1\<lparr>player := (player s1)\<lparr>position := \<lparr>xv = 0, yv = 5, zv = 0\<rparr>\<rparr>\<rparr>;
          s3 = s2\<lparr>listeners := insert OnUnlock (listeners s2)\<rparr>;
          s4 = setupInputs s3;
          s5 = updateChunks s4;
          s6 = s5\<lparr>lastTime := now\<rparr>
      in animate now s6)"

text \<open>
  What the browser and the host can do to an engine. An event reaches its handler only
  while the listener is registered, and a frame runs only while one is requested.
\<close>

datatype event =
  KeyDown keycode
  | KeyUp keycode
  | MouseDown "(block \<times> real) option"
  | MouseMove real real real real
  | Resize
  | Unlock
  | Frame real
  | Lock real
  | Dispose

fun dispatch :: "event \<Rightarrow> engine \<Rightarrow> engine" where
  "dispatch (KeyDown k) s = (if OnKeyDown \<in> listeners s then onKey k True s else s)"
| "dispatch (KeyUp k) s = (if OnKeyUp \<in> listeners s then onKey k False s else s)"
| "dispatch (MouseDown hit) s = (if OnMouseDown \<in> listeners s then destroyBlock hit s else s)"
| "dispatch (MouseMove dx dy w h) s =
     (if OnMouseMove \<in> listeners s then onMouseMove dx dy w h s else s)"
| "dispatch Resize s = (if OnResize \<in> listeners s then onResize s else s)"
| "dispatch Unlock s = (if OnUnlock \<in> listeners s then onUnlock s else s)"
| "dispatch (Frame now) s = (if frameRequested s then animate now s else s)"
| "dispatch (Lock now) s = lock now s"
| "dispatch Dispose s = dispose s"

subsection \<open>Notions used by the statements\<close>

text \<open>The chunk indices of the streaming window of \<^verbatim>\<open>updateChunks\<close>, in loop order.\<close>

definition window :: "engine \<Rightarrow> int list" where
  "window s = [playerChunkX s - 1..playerChunkX s + VIEW_DISTANCE]"

text \<open>The clamped elapsed time that \<^verbatim>\<open>animate\<close> computes at the time \<open>now\<close>.\<close>

definition frameDelta :: "real \<Rightarrow> engine \<Rightarrow> real" where
  "frameDelta now s = min ((now - lastTime s) / 1000) 0.1"

text \<open>
  The simulation state: what physics, particle aging, chunk generation, block destruction
  and the stats accumulation write, with the record of the host callbacks.
\<close>

definition simState ::
  "engine \<Rightarrow> player \<times> particle list \<times> (coord \<rightharpoonup> block) \<times> int set \<times> stats \<times> stats list \<times> nat \<times> nat" where
  "simState s =
     (player s, particles s, blocks s, chunksGenerated s, stats s, statsUpdates s, rndPos s,
      deaths s)"

fun isLock :: "event \<Rightarrow> bool" where
  "isLock (Lock now) = True"
| "isLock e = False"

text \<open>Only the grid and the random position differ between two states.\<close>

definition gridOnly :: "engine \<Rightarrow> engine \<Rightarrow> bool" where
  "gridOnly s s' = (s' = s\<lparr>blocks := blocks s', rndPos := rndPos s'\<rparr>)"

text \<open>Only the grid, the random position and the chunk ledger differ.\<close>

definition terrainOnly :: "engine \<Rightarrow> engine \<Rightarrow> bool" where
  "terrainOnly s s' =
     (s' = s\<lparr>blocks := blocks s', rndPos := rndPos s', chunksGenerated := chunksGenerated s'\<rparr>)"

subsection \<open>A flat floor\<close>

text \<open>
  The grid is a single layer of blocks at \<open>y = 0\<close>, \<open>z = 0\<close>, over the columns from \<open>lo\<close>
  to \<open>hi\<close>, and nothing else.
\<close>

definition flatFloor :: "int \<Rightarrow> int \<Rightarrow> (coord \<rightharpoonup> block) \<Rightarrow> bool" where
  "flatFloor lo hi bs = (\<forall>x y z. (bs (x, y, z) \<noteq> None) = (y = 0 \<and> z = 0 \<and> lo \<le> x \<and> x \<le> hi))"

definition floorGrid :: "int \<Rightarrow> int \<Rightarrow> (coord \<rightharpoonup> block)" where
  "floorGrid lo hi =
     (\<lambda>(x, y, z). if y = 0 \<and> z = 0 \<and> lo \<le> x \<and> x \<le> hi
                   then Some \<lparr>btype = Stone, bkey = (x, y, z)\<rparr> else None)"

text \<open>
  What the downward branch of \<^verbatim>\<open>checkCollision('y')\<close> does at a block of the layer
  \<open>y = 0\<close>, and what the branch of \<^verbatim>\<open>checkCollision('x')\<close> for a velocity that is not
  positive does at the column \<open>x\<close>.
\<close>

definition land :: "player \<Rightarrow> player" where
  "land p = p\<lparr>position := (position p)\<lparr>yv := 0.9\<rparr>, velocity := (velocity p)\<lparr>yv := 0\<rparr>,
              onGround := True\<rparr>"

definition pushX :: "int \<Rightarrow> player \<Rightarrow> player" where
  "pushX x p = p\<lparr>position := (position p)\<lparr>xv := real_of_int x + 0.85\<rparr>,
                 velocity := (velocity p)\<lparr>xv := 0\<rparr>\<rparr>"

text \<open>
  The player \<open>p\<close>, at rest at the start, after \<open>k\<close> steps of free fall, and the player at
  rest on the floor at the horizontal position \<open>x\<close>.
\<close>

definition fallState :: "real \<Rightarrow> player \<Rightarrow> nat \<Rightarrow> player" where
  "fallState dt p k =
     \<lparr>position = \<lparr>xv = xv (position p),
                   yv = yv (position p) - 20 * dt * dt * real k * (real k + 1),
                   zv = zv (position p)\<rparr>,
      velocity = \<lparr>xv = 0, yv = - (40 * real k * dt), zv = zv (velocity p)\<rparr>,
      onGround = onGround p, canDoubleJump = canDoubleJump p\<rparr>"

definition groundState :: "player \<Rightarrow> real \<Rightarrow> player" where
  "groundState p x =
     \<lparr>position = \<lparr>xv = x, yv = 0.9, zv = zv (position p)\<rparr>,
      velocity = \<lparr>xv = 0, yv = 0, zv = zv (velocity p)\<rparr>,
      onGround = True, canDoubleJump = canDoubleJump p\<rparr>"

subsection \<open>Sample states\<close>

text \<open>The platform whose operations are the mathematical ones, without rounding.\<close>

definition exactMath :: platform where
  "exactMath = \<lparr>Math_sin = sin, Math_cos = cos, fmul = (*)\<rparr>"

text \<open>
  A new engine on that platform whose random numbers are all zero, before \<^verbatim>\<open>init\<close>.
\<close>

definition blank :: engine where
  "blank = fresh exactMath (\<lambda>n. 0)"

text \<open>An active session on an empty grid, the player on the ground flag set, at height 5.\<close>

definition grounded :: engine where
  "grounded =
     blank\<lparr>active := True,
           player := \<lparr>position = \<lparr>xv = 0, yv = 5, zv = 0\<rparr>, velocity = \<lparr>xv = 0, yv = 0, zv = 0\<rparr>,
                     onGround = True, canDoubleJump = False\<rparr>\<rparr>"

text \<open>An active session, the player in the air after a first jump.\<close>

definition airborne :: engine where
  "airborne =
     blank\<lparr>active := True,
           player := \<lparr>position = \<lparr>xv = 0, yv = 5, zv = 0\<rparr>, velocity = \<lparr>xv = 0, yv = 0, zv = 0\<rparr>,
                     onGround = False, canDoubleJump = True\<rparr>\<rparr>"

text \<open>An active session on an empty grid, the player just above the death line.\<close>

definition falling :: engine where
  "falling =
     blank\<lparr>active := True,
           player := \<lparr>position = \<lparr>xv = 0, yv = - 9.9, zv = 0\<rparr>, velocity = \<lparr>xv = 0, yv = 0, zv = 0\<rparr>,
                     onGround = False, canDoubleJump = False\<rparr>,
           listeners := {OnKeyDown, OnKeyUp, OnMouseDown, OnMouseMove, OnResize, OnUnlock},
           frameRequested := True\<rparr>"

definition particle0 :: particle where
  "particle0 =
     \<lparr>ppos = \<lparr>xv = 0, yv = 0, zv = 0\<rparr>, pvel = \<lparr>xv = 0, yv = 0, zv = 0\<rparr>, life = 1.0,
      rotx = 0, rotz = 0, pscale = 1, pcolor = 0xffffff\<rparr>"

text \<open>
  An active session: a floor of two blocks under the player, who is at rest at
  \<open>(0, 5, 0)\<close>, with no key pressed.
\<close>

definition dropped :: engine where
  "dropped =
     blank\<lparr>active := True, blocks := floorGrid (- 1) 0,
           player := \<lparr>position = \<lparr>xv = 0, yv = 5, zv = 0\<rparr>, velocity = \<lparr>xv = 0, yv = 0, zv = 0\<rparr>,
                     onGround = False, canDoubleJump = False\<rparr>\<rparr>"

text \<open>The same session, the player diving at a vertical velocity of \<open>-1000\<close>.\<close>

definition diving :: engine where
  "diving =
     dropped\<lparr>player := \<lparr>position = \<lparr>xv = 0, yv = 5, zv = 0\<rparr>,
                         velocity = \<lparr>xv = 0, yv = - 1000, zv = 0\<rparr>,
                         onGround = False, canDoubleJump = False\<rparr>\<rparr>"

section \<open>Frame properties\<close>

lemma gridOnly_refl: "gridOnly s s"
  by (simp add: gridOnly_def)

lemma gridOnly_trans:
  assumes "gridOnly s s'" and "gridOnly s' s''"
  shows "gridOnly s s''"
proof -
  from assms have e1: "s' = s\<lparr>blocks := blocks s', rndPos := rndPos s'\<rparr>"
    and e2: "s'' = s'\<lparr>blocks := blocks s'', rndPos := rndPos s''\<rparr>"
    by (simp_all add: gridOnly_def)
  have "s'\<lparr>blocks := blocks s'', rndPos := rndPos s''\<rparr>
      = s\<lparr>blocks := blocks s'', rndPos := rndPos s''\<rparr>"
    using arg_cong [OF e1, of "\<lambda>t. t\<lparr>blocks := blocks s'', rndPos := rndPos s''\<rparr>"] by simp
  with e2 show ?thesis by (simp add: gridOnly_def)
qed

lemma gridOnly_fold:
  "(\<And>a s. gridOnly s (f a s)) \<Longrightarrow> gridOnly s (fold f xs s)"
  by (induction xs arbitrary: s) (auto intro: gridOnly_refl gridOnly_trans)

lemma gridOnly_createBlock: "gridOnly s (createBlock x y z t s)"
  by (simp add: gridOnly_def createBlock_def Let_def)

lemma gridOnly_fillColumn: "gridOnly s (fillColumn w h s)"
  unfolding fillColumn_def by (rule gridOnly_fold) (rule gridOnly_createBlock)

lemma gridOnly_fragileObstacle: "gridOnly s (fragileObstacle x w h s)"
  by (simp add: gridOnly_def fragileObstacle_def createBlock_def hasBlock_def random_def Let_def)

lemma gridOnly_stonePlatform: "gridOnly s (stonePlatform w h s)"
  by (simp add: gridOnly_def stonePlatform_def createBlock_def hasBlock_def random_def Let_def)

lemma gridOnly_generateColumn: "gridOnly s (generateColumn off x s)"
  unfolding generateColumn_def Let_def
  by (blast intro: gridOnly_trans gridOnly_fillColumn gridOnly_fragileObstacle
      gridOnly_stonePlatform)

lemma gridOnly_generateChunk: "gridOnly s (generateChunk cx s)"
  unfolding generateChunk_def by (rule gridOnly_fold) (rule gridOnly_generateColumn)

lemma gridOnlyD:
  assumes "gridOnly s s'"
  shows "active s' = active s" "lastTime s' = lastTime s"
    "chunksGenerated s' = chunksGenerated s" "particles s' = particles s" "stats s' = stats s"
    "player s' = player s" "input s' = input s" "mouse s' = mouse s" "camera s' = camera s"
    "rnd s' = rnd s" "listeners s' = listeners s" "frameRequested s' = frameRequested s"
    "pointerLocked s' = pointerLocked s" "deaths s' = deaths s" "unlocks s' = unlocks s"
    "statsUpdates s' = statsUpdates s" "platform s' = platform s"
proof -
  from assms have e: "s' = s\<lparr>blocks := blocks s', rndPos := rndPos s'\<rparr>"
    by (simp add: gridOnly_def)
  show "active s' = active s" using arg_cong [OF e, of active] by simp
  show "lastTime s' = lastTime s" using arg_cong [OF e, of lastTime] by simp
  show "chunksGenerated s' = chunksGenerated s" using arg_cong [OF e, of chunksGenerated] by simp
  show "particles s' = particles s" using arg_cong [OF e, of particles] by simp
  show "stats s' = stats s" using arg_cong [OF e, of stats] by simp
  show "player s' = player s" using arg_cong [OF e, of player] by simp
  show "input s' = input s" using arg_cong [OF e, of input] by simp
  show "mouse s' = mouse s" using arg_cong [OF e, of mouse] by simp
  show "camera s' = camera s" using arg_cong [OF e, of camera] by simp
  show "rnd s' = rnd s" using arg_cong [OF e, of rnd] by simp
  show "listeners s' = listeners s" using arg_cong [OF e, of listeners] by simp
  show "frameRequested s' = frameRequested s" using arg_cong [OF e, of frameRequested] by simp
  show "pointerLocked s' = pointerLocked s" using arg_cong [OF e, of pointerLocked] by simp
  show "deaths s' = deaths s" using arg_cong [OF e, of deaths] by simp
  show "unlocks s' = unlocks s" using arg_cong [OF e, of unlocks] by simp
  show "statsUpdates s' = statsUpdates s" using arg_cong [OF e, of statsUpdates] by simp
  show "platform s' = platform s" using arg_cong [OF e, of platform] by simp
qed

lemmas generateChunk_frame = gridOnlyD [OF gridOnly_generateChunk]

lemma terrainOnly_refl: "terrainOnly s s"
  by (simp add: terrainOnly_def)

lemma terrainOnly_trans:
  assumes "terrainOnly s s'" and "terrainOnly s' s''"
  shows "terrainOnly s s''"
proof -
  from assms
  have e1: "s' = s\<lparr>blocks := blocks s', rndPos := rndPos s',
                   chunksGenerated := chunksGenerated s'\<rparr>"
    and e2: "s'' = s'\<lparr>blocks := blocks s'', rndPos := rndPos s'',
                     chunksGenerated := chunksGenerated s''\<rparr>"
    by (simp_all add: terrainOnly_def)
  have "s'\<lparr>blocks := blocks s'', rndPos := rndPos s'', chunksGenerated := chunksGenerated s''\<rparr>
      = s\<lparr>blocks := blocks s'', rndPos := rndPos s'', chunksGenerated := chunksGenerated s''\<rparr>"
    using arg_cong [OF e1, of "\<lambda>t. t\<lparr>blocks := blocks s'', rndPos := rndPos s'',
                                      chunksGenerated := chunksGenerated s''\<rparr>"]
    by simp
  with e2 show ?thesis by (simp add: terrainOnly_def)
qed

lemma terrainOnly_ensureChunk: "terrainOnly s (ensureChunk cx s)"
proof -
  let ?g = "generateChunk cx s"
  have "?g = s\<lparr>blocks := blocks ?g, rndPos := rndPos ?g\<rparr>"
    using gridOnly_generateChunk [of s cx] by (simp add: gridOnly_def)
  then have "?g\<lparr>chunksGenerated := insert cx (chunksGenerated ?g)\<rparr>
     = s\<lparr>blocks := blocks ?g, rndPos := rndPos ?g,
         chunksGenerated := insert cx (chunksGenerated ?g)\<rparr>"
    using arg_cong [of ?g _ "\<lambda>t. t\<lparr>chunksGenerated := insert cx (chunksGenerated ?g)\<rparr>"]
    by simp
  then show ?thesis
    by (simp add: terrainOnly_def ensureChunk_def Let_def)
qed

lemma terrainOnly_fold:
  "(\<And>a s. terrainOnly s (f a s)) \<Longrightarrow> terrainOnly s (fold f xs s)"
  by (induction xs arbitrary: s) (auto intro: terrainOnly_refl terrainOnly_trans)

lemma terrainOnly_updateChunks: "terrainOnly s (updateChunks s)"
  unfolding updateChunks_def Let_def by (rule terrainOnly_fold) (rule terrainOnly_ensureChunk)

lemma terrainOnlyD:
  assumes "terrainOnly s s'"
  shows "active s' = active s" "lastTime s' = lastTime s"
    "particles s' = particles s" "stats s' = stats s" "player s' = player s"
    "input s' = input s" "mouse s' = mouse s" "camera s' = camera s" "rnd s' = rnd s"
    "listeners s' = listeners s" "frameRequested s' = frameRequested s"
    "pointerLocked s' = pointerLocked s" "deaths s' = deaths s" "unlocks s' = unlocks s"
    "statsUpdates s' = statsUpdates s" "platform s' = platform s"
proof -
  from assms
  have e: "s' = s\<lparr>blocks := blocks s', rndPos := rndPos s',
                  chunksGenerated := chunksGenerated s'\<rparr>"
    by (simp add: terrainOnly_def)
  show "active s' = active s" using arg_cong [OF e, of active] by simp
  show "lastTime s' = lastTime s" using arg_cong [OF e, of lastTime] by simp
  show "particles s' = particles s" using arg_cong [OF e, of particles] by simp
  show "stats s' = stats s" using arg_cong [OF e, of stats] by simp
  show "player s' = player s" using arg_cong [OF e, of player] by simp
  show "input s' = input s" using arg_cong [OF e, of input] by simp
  show "mouse s' = mouse s" using arg_cong [OF e, of mouse] by simp
  show "camera s' = camera s" using arg_cong [OF e, of camera] by simp
  show "rnd s' = rnd s" using arg_cong [OF e, of rnd] by simp
  show "listeners s' = listeners s" using arg_cong [OF e, of listeners] by simp
  show "frameRequested s' = frameRequested s" using arg_cong [OF e, of frameRequested] by simp
  show "pointerLocked s' = pointerLocked s" using arg_cong [OF e, of pointerLocked] by simp
  show "deaths s' = deaths s" using arg_cong [OF e, of deaths] by simp
  show "unlocks s' = unlocks s" using arg_cong [OF e, of unlocks] by simp
  show "statsUpdates s' = statsUpdates s" using arg_cong [OF e, of statsUpdates] by simp
  show "platform s' = platform s" using arg_cong [OF e, of platform] by simp
qed

lemmas updateChunks_frame = terrainOnlyD [OF terrainOnly_updateChunks]

lemma updatePhysics_frame:
  "particles (updatePhysics dt s) = particles s" "blocks (updatePhysics dt s) = blocks s"
  "stats (updatePhysics dt s) = stats s" "input (updatePhysics dt s) = input s"
  "player (updatePhysics dt s) = movePlayer dt (input s) (blocks s) (player s)"
  by (simp_all add: updatePhysics_def Let_def)

lemma animate_inactive:
  "\<not> active s \<Longrightarrow> animate now s = s\<lparr>frameRequested := True, lastTime := now\<rparr>"
  by (simp add: animate_def Let_def)

lemma animate_active_fields:
  assumes "active s"
  shows "player (animate now s) = movePlayer (frameDelta now s) (input s) (blocks s) (player s)"
    and "active (animate now s)
          = active (updatePhysics (frameDelta now s) (s\<lparr>frameRequested := True, lastTime := now\<rparr>))"
    and "deaths (animate now s)
          = deaths (updatePhysics (frameDelta now s) (s\<lparr>frameRequested := True, lastTime := now\<rparr>))"
  using assms
  by (simp_all add: animate_def Let_def frameDelta_def updateChunks_frame updatePhysics_frame)

section \<open>Particles\<close>

lemma spawnParticles_eq:
  "\<exists>ps. length ps = n \<and> (\<forall>p\<in>set ps. ppos p = pos \<and> pcolor p = c \<and> life p = 1)
      \<and> spawnParticles pos n c s = s\<lparr>particles := particles s @ ps, rndPos := rndPos s + 3 * n\<rparr>"
proof (induction n arbitrary: s)
  case 0
  show ?case by simp
next
  case (Suc n)
  let ?m = "\<lparr>ppos = pos,
             pvel = \<lparr>xv = (rnd s (rndPos s) - 0.5) * 5,
                     yv = (rnd s (Suc (rndPos s)) - 0.5) * 5 + 2,
                     zv = (rnd s (Suc (Suc (rndPos s))) - 0.5) * 5\<rparr>,
             life = 1.0, rotx = 0, rotz = 0, pscale = 1, pcolor = c\<rparr>"
  let ?s = "s\<lparr>rndPos := Suc (Suc (Suc (rndPos s))), particles := particles s @ [?m]\<rparr>"
  have step: "spawnParticles pos (Suc n) c s = spawnParticles pos n c ?s"
    by (simp add: random_def Let_def)
  from Suc.IH [of ?s] obtain ps where ps: "length ps = n"
    "\<forall>p\<in>set ps. ppos p = pos \<and> pcolor p = c \<and> life p = 1"
    "spawnParticles pos n c ?s = ?s\<lparr>particles := particles ?s @ ps, rndPos := rndPos ?s + 3 * n\<rparr>"
    by blast
  have "spawnParticles pos (Suc n) c s
          = s\<lparr>particles := particles s @ (?m # ps), rndPos := rndPos s + 3 * Suc n\<rparr>"
    unfolding step ps(3) by simp
  moreover have "length (?m # ps) = Suc n" using ps(1) by simp
  moreover have "\<forall>p\<in>set (?m # ps). ppos p = pos \<and> pcolor p = c \<and> life p = 1"
    using ps(2) by simp
  ultimately show ?case by blast
qed

lemma spawnParticles_player: "player (spawnParticles pos n c s) = player s"
  by (induction n arbitrary: s) (simp_all add: random_def Let_def)

section \<open>An ended session stays ended\<close>

lemma dispatch_inactive:
  assumes "\<not> active s" and "\<not> isLock e"
  shows "\<not> active (dispatch e s) \<and> simState (dispatch e s) = simState s"
proof (cases e)
  case (KeyDown k)
  then show ?thesis using assms by (cases k) (simp_all add: simState_def handleJump_def)
next
  case (KeyUp k)
  then show ?thesis using assms by (cases k) (simp_all add: simState_def handleJump_def)
next
  case (Frame now)
  then show ?thesis using assms by (simp add: simState_def animate_inactive)
qed (use assms in \<open>simp_all add: simState_def destroyBlock_def onMouseMove_def onResize_def
      onUnlock_def dispose_def\<close>)

lemma fold_dispatch_inactive:
  "\<not> active s \<Longrightarrow> \<forall>e\<in>set es. \<not> isLock e \<Longrightarrow>
     \<not> active (fold dispatch es s) \<and> simState (fold dispatch es s) = simState s"
proof (induction es arbitrary: s)
  case Nil
  then show ?case by simp
next
  case (Cons e es)
  from Cons.prems have 1: "\<not> active (dispatch e s)" "simState (dispatch e s) = simState s"
    using dispatch_inactive [of s e] by simp_all
  from Cons.IH [OF 1(1)] Cons.prems(2) 1(2) show ?case by simp
qed

section \<open>The chunk ledger\<close>

lemma ensureChunk_new:
  "cx \<notin> chunksGenerated s \<Longrightarrow>
     ensureChunk cx s
       = (generateChunk cx s)\<lparr>chunksGenerated := insert cx (chunksGenerated (generateChunk cx s))\<rparr>"
  by (simp add: ensureChunk_def Let_def)

lemma ensureChunk_old: "cx \<in> chunksGenerated s \<Longrightarrow> ensureChunk cx s = s"
  by (simp add: ensureChunk_def)

lemma chunksGenerated_ensureChunk:
  "chunksGenerated (ensureChunk cx s) = insert cx (chunksGenerated s)"
  by (auto simp add: ensureChunk_def Let_def generateChunk_frame)

lemma fold_ensureChunk:
  "distinct cs \<Longrightarrow>
     fold ensureChunk cs s
       = fold (\<lambda>cx t. (generateChunk cx t)
                  \<lparr>chunksGenerated := insert cx (chunksGenerated (generateChunk cx t))\<rparr>)
           (filter (\<lambda>cx. cx \<notin> chunksGenerated s) cs) s"
proof (induction cs arbitrary: s)
  case Nil
  show ?case by simp
next
  case (Cons c cs)
  then have d: "distinct cs" "c \<notin> set cs" by simp_all
  have f: "filter (\<lambda>cx. cx \<notin> insert c (chunksGenerated s)) cs
         = filter (\<lambda>cx. cx \<notin> chunksGenerated s) cs"
    using d(2) by (intro filter_cong) auto
  show ?case
  proof (cases "c \<in> chunksGenerated s")
    case True
    then show ?thesis using Cons.IH [OF d(1), of s] by (simp add: ensureChunk_old)
  next
    case False
    have "chunksGenerated (ensureChunk c s) = insert c (chunksGenerated s)"
      by (rule chunksGenerated_ensureChunk)
    with Cons.IH [OF d(1), of "ensureChunk c s"] f
    have "fold ensureChunk cs (ensureChunk c s)
        = fold (\<lambda>cx t. (generateChunk cx t)
                  \<lparr>chunksGenerated := insert cx (chunksGenerated (generateChunk cx t))\<rparr>)
            (filter (\<lambda>cx. cx \<notin> chunksGenerated s) cs) (ensureChunk c s)"
      by simp
    then show ?thesis using False by (simp add: ensureChunk_new)
  qed
qed

lemma chunksGenerated_fold_ensureChunk:
  "chunksGenerated (fold ensureChunk cs s) = chunksGenerated s \<union> set cs"
  by (induction cs arbitrary: s) (simp_all add: chunksGenerated_ensureChunk)

lemma map_add_upto: "map (\<lambda>i. p + i) [a..b] = [p + a..p + b]"
proof (induction a b rule: upto.induct)
  case (1 i j)
  show ?case
  proof (cases "i \<le> j")
    case True
    with 1 have "map (\<lambda>k. p + k) [i + 1..j] = [p + (i + 1)..p + j]" by simp
    with True show ?thesis
      by (simp add: upto_rec1 [of i j] upto_rec1 [of "p + i" "p + j"] add.assoc)
  next
    case False
    then show ?thesis by simp
  qed
qed

lemma updateChunks_alt: "updateChunks s = fold ensureChunk (window s) s"
proof -
  have "fold (\<lambda>i. ensureChunk (playerChunkX s + i)) [- 1..VIEW_DISTANCE] s
      = fold ensureChunk (map (\<lambda>i. playerChunkX s + i) [- 1..VIEW_DISTANCE]) s"
    by (simp add: fold_map comp_def)
  then show ?thesis by (simp add: updateChunks_def Let_def window_def map_add_upto)
qed

section \<open>The ground flag\<close>

lemma collideCell_onGround: "onGround pl \<Longrightarrow> onGround (collideCell ax bs x y z pl)"
  by (simp add: collideCell_def split: axis.splits)

lemma fold_onGround:
  "(\<And>a pl. onGround pl \<Longrightarrow> onGround (f a pl)) \<Longrightarrow> onGround pl \<Longrightarrow> onGround (fold f xs pl)"
  by (induction xs arbitrary: pl) simp_all

lemma checkCollision_onGround: "onGround pl \<Longrightarrow> onGround (checkCollision ax bs pl)"
  unfolding checkCollision_def Let_def
  by (intro fold_onGround collideCell_onGround)

lemma movePlayer_onGround: "onGround pl \<Longrightarrow> onGround (movePlayer dt inp bs pl)"
  by (simp add: movePlayer_def Let_def checkCollision_onGround)

lemma updatePhysics_onGround: "onGround (player s) \<Longrightarrow> onGround (player (updatePhysics dt s))"
  by (simp add: updatePhysics_frame movePlayer_onGround)

lemma animate_onGround: "onGround (player s) \<Longrightarrow> onGround (player (animate now s))"
  by (cases "active s") (simp_all add: animate_active_fields animate_inactive movePlayer_onGround)

lemma dispatch_onGround:
  assumes "onGround (player s)" and "\<not> onGround (player (dispatch e s))"
  shows "e = KeyDown Space \<and> active s \<and> OnKeyDown \<in> listeners s"
proof (cases e)
  case (KeyDown k)
  then show ?thesis using assms by (cases k) (auto simp: handleJump_def split: if_splits)
next
  case (KeyUp k)
  then show ?thesis using assms by (cases k) (auto split: if_splits)
next
  case (MouseDown hit)
  then show ?thesis using assms
    by (auto simp: destroyBlock_def Let_def deleteBlock_def spawnParticles_player
        split: if_splits option.splits)
next
  case (Frame now)
  then show ?thesis using assms animate_onGround [of s now] by (auto split: if_splits)
qed (use assms in \<open>auto simp: onMouseMove_def onResize_def onUnlock_def dispose_def lock_def
      Let_def split: if_splits\<close>)

lemma fold_unchanged: "(\<And>a p. f a p = p) \<Longrightarrow> fold f xs p = p"
  by (induction xs) simp_all

lemma checkCollision_empty: "checkCollision ax Map.empty pl = pl"
  by (simp add: checkCollision_def collideCell_def Let_def fold_unchanged)

section \<open>The constructor\<close>

lemma init_fields:
  "listeners (init pf rs now)
     = {OnKeyDown, OnKeyUp, OnMouseDown, OnMouseMove, OnResize, OnUnlock}"
  "\<not> active (init pf rs now)" "frameRequested (init pf rs now)"
  "mouse (init pf rs now) = \<lparr>mx = 0, my = 0\<rparr>"
  "input (init pf rs now) = \<lparr>input_f = 0, input_r = 0, input_sprint = False\<rparr>"
  by (auto simp add: init_def Let_def animate_def updateChunks_frame setupInputs_def fresh_def)

section \<open>Terrain columns\<close>

lemma blocks_createBlock:
  "blocks (createBlock x y z t s) k =
     (if k = (x, y, z) \<and> blocks s k = None then Some \<lparr>btype = t, bkey = k\<rparr> else blocks s k)"
  by (auto simp add: createBlock_def hasBlock_def Let_def)

lemma blocks_random: "blocks (snd (random s)) = blocks s"
  by (simp add: random_def)

lemma createBlock_le: "blocks s \<subseteq>\<^sub>m blocks (createBlock x y z t s)"
  by (simp add: map_le_def blocks_createBlock dom_def)

lemma fold_le:
  "(\<And>a s. blocks s \<subseteq>\<^sub>m blocks (f a s)) \<Longrightarrow> blocks s \<subseteq>\<^sub>m blocks (fold f xs s)"
proof (induction xs arbitrary: s)
  case Nil
  show ?case by simp
next
  case (Cons a xs)
  have "blocks s \<subseteq>\<^sub>m blocks (f a s)" by (rule Cons.prems)
  moreover have "blocks (f a s) \<subseteq>\<^sub>m blocks (fold f xs (f a s))"
    by (rule Cons.IH) (rule Cons.prems)
  ultimately show ?case by (simp add: map_le_trans)
qed

lemma fillColumn_le: "blocks s \<subseteq>\<^sub>m blocks (fillColumn w h s)"
  unfolding fillColumn_def by (rule fold_le) (rule createBlock_le)

lemma fragileObstacle_le: "blocks s \<subseteq>\<^sub>m blocks (fragileObstacle x w h s)"
  by (auto simp add: fragileObstacle_def Let_def split_beta map_le_def blocks_createBlock
      blocks_random dom_def)

lemma stonePlatform_le: "blocks s \<subseteq>\<^sub>m blocks (stonePlatform w h s)"
  by (auto simp add: stonePlatform_def Let_def split_beta map_le_def blocks_createBlock
      blocks_random dom_def)

lemma generateColumn_le: "blocks s \<subseteq>\<^sub>m blocks (generateColumn off x s)"
  unfolding generateColumn_def Let_def
  by (blast intro: map_le_trans fillColumn_le fragileObstacle_le stonePlatform_le)

lemma le_SomeD: "m \<subseteq>\<^sub>m m' \<Longrightarrow> m k = Some b \<Longrightarrow> m' k = Some b"
  by (metis domI map_le_def)

lemma fold_createBlock_other_col:
  "w' \<noteq> w \<Longrightarrow>
     blocks (fold (\<lambda>y. createBlock w y 0 (t y)) ys s) (w', y, z) = blocks s (w', y, z)"
  by (induction ys arbitrary: s) (simp_all add: blocks_createBlock)

lemma fold_createBlock_at:
  "y \<in> set ys \<Longrightarrow> blocks s (w, y, 0) = None \<Longrightarrow>
     blocks (fold (\<lambda>y. createBlock w y 0 (t y)) ys s) (w, y, 0)
       = Some \<lparr>btype = t y, bkey = (w, y, 0)\<rparr>"
proof (induction ys arbitrary: s)
  case Nil
  then show ?case by simp
next
  case (Cons a ys)
  show ?case
  proof (cases "a = y")
    case True
    have "blocks (createBlock w y 0 (t y) s) (w, y, 0) = Some \<lparr>btype = t y, bkey = (w, y, 0)\<rparr>"
      using Cons.prems(2) by (simp add: blocks_createBlock)
    moreover have "blocks (createBlock w y 0 (t y) s)
        \<subseteq>\<^sub>m blocks (fold (\<lambda>y. createBlock w y 0 (t y)) ys (createBlock w y 0 (t y) s))"
      by (rule fold_le) (rule createBlock_le)
    ultimately show ?thesis using True by (simp add: le_SomeD)
  next
    case False
    with Cons.prems have "y \<in> set ys" "blocks (createBlock w a 0 (t a) s) (w, y, 0) = None"
      by (simp_all add: blocks_createBlock)
    from Cons.IH [OF this] show ?thesis by simp
  qed
qed

lemma fillColumn_at:
  "- 4 \<le> y \<Longrightarrow> y \<le> h \<Longrightarrow> blocks s (w, y, 0) = None \<Longrightarrow>
     blocks (fillColumn w h s) (w, y, 0)
       = Some \<lparr>btype = (if y = h then Grass else Dirt), bkey = (w, y, 0)\<rparr>"
  unfolding fillColumn_def by (rule fold_createBlock_at) simp_all

lemma fillColumn_has: "- 4 \<le> y \<Longrightarrow> y \<le> h \<Longrightarrow> blocks (fillColumn w h s) (w, y, 0) \<noteq> None"
proof (cases "blocks s (w, y, 0)")
  case None
  assume "- 4 \<le> y" "y \<le> h"
  with None show ?thesis by (simp add: fillColumn_at)
next
  case (Some b)
  then show ?thesis using le_SomeD [OF fillColumn_le Some] by simp
qed

lemma generateColumn_other:
  assumes "off + x \<noteq> w"
    and "off + x + 1 = w \<longrightarrow> y \<noteq> terrainHeight (platform s) (off + x) + 4"
  shows "blocks (generateColumn off x s) (w, y, 0) = blocks s (w, y, 0)"
  using assms
  by (auto simp add: generateColumn_def fillColumn_def stonePlatform_def fragileObstacle_def
      Let_def split_beta blocks_createBlock blocks_random fold_createBlock_other_col)

lemma platform_generateColumn: "platform (generateColumn off x s) = platform s"
  by (rule gridOnlyD [OF gridOnly_generateColumn])

lemma fold_generateColumn_untouched:
  "\<forall>x\<in>set xs. off + x < w \<and> (off + x + 1 = w \<longrightarrow> y \<noteq> terrainHeight (platform s) (off + x) + 4)
     \<Longrightarrow> blocks (fold (generateColumn off) xs s) (w, y, 0) = blocks s (w, y, 0)"
proof (induction xs arbitrary: s)
  case Nil
  show ?case by simp
next
  case (Cons a xs)
  have 1: "blocks (generateColumn off a s) (w, y, 0) = blocks s (w, y, 0)"
    by (rule generateColumn_other) (use Cons.prems in auto)
  have "blocks (fold (generateColumn off) xs (generateColumn off a s)) (w, y, 0)
      = blocks (generateColumn off a s) (w, y, 0)"
    by (rule Cons.IH) (use Cons.prems in \<open>simp add: platform_generateColumn\<close>)
  with 1 show ?case by simp
qed

lemma platform_fold_generateColumn: "platform (fold (generateColumn off) xs s) = platform s"
  by (induction xs arbitrary: s) (simp_all add: platform_generateColumn)

lemma generateColumn_at:
  assumes "- 4 \<le> y" and "y \<le> terrainHeight (platform s) (off + x)"
  shows "blocks (generateColumn off x s) (off + x, y, 0) \<noteq> None"
    and "blocks s (off + x, y, 0) = None \<Longrightarrow>
      blocks (generateColumn off x s) (off + x, y, 0)
        = Some \<lparr>btype = (if y = terrainHeight (platform s) (off + x) then Grass else Dirt),
                bkey = (off + x, y, 0)\<rparr>"
proof -
  let ?w = "off + x" and ?h = "terrainHeight (platform s) (off + x)"
  let ?s1 = "fillColumn ?w ?h s"
  have le: "blocks ?s1 \<subseteq>\<^sub>m blocks (generateColumn off x s)"
    unfolding generateColumn_def Let_def
    by (blast intro: map_le_trans fragileObstacle_le stonePlatform_le)
  from fillColumn_has [OF assms, of ?w s] obtain b where "blocks ?s1 (?w, y, 0) = Some b"
    by auto
  from le_SomeD [OF le this] show "blocks (generateColumn off x s) (off + x, y, 0) \<noteq> None"
    by simp
  assume "blocks s (off + x, y, 0) = None"
  from fillColumn_at [OF assms this] le_SomeD [OF le]
  show "blocks (generateColumn off x s) (off + x, y, 0)
        = Some \<lparr>btype = (if y = terrainHeight (platform s) (off + x) then Grass else Dirt),
                bkey = (off + x, y, 0)\<rparr>"
    by blast
qed

text \<open>After the generation of a chunk, every cell of its terrain holds a block.\<close>

lemma generateChunk_cells:
  assumes x: "0 \<le> x" "x < CHUNK_SIZE" and y: "- 4 \<le> y"
    "y \<le> terrainHeight (platform s) (cx * CHUNK_SIZE + x)"
  shows "blocks (generateChunk cx s) (cx * CHUNK_SIZE + x, y, 0) \<noteq> None"
    and "blocks s (cx * CHUNK_SIZE + x, y, 0) = None \<Longrightarrow>
      x = 0 \<or> y \<noteq> terrainHeight (platform s) (cx * CHUNK_SIZE + x - 1) + 4 \<Longrightarrow>
      blocks (generateChunk cx s) (cx * CHUNK_SIZE + x, y, 0)
        = Some \<lparr>btype = (if y = terrainHeight (platform s) (cx * CHUNK_SIZE + x) then Grass
                          else Dirt),
                bkey = (cx * CHUNK_SIZE + x, y, 0)\<rparr>"
proof -
  let ?off = "cx * CHUNK_SIZE"
  let ?w = "?off + x"
  let ?s1 = "fold (generateColumn ?off) [0..x - 1] s"
  let ?s2 = "generateColumn ?off x ?s1"
  have pf: "platform ?s1 = platform s" by (rule platform_fold_generateColumn)
  have split: "[0..CHUNK_SIZE - 1] = [0..x - 1] @ x # [x + 1..CHUNK_SIZE - 1]"
    using x by (intro upto_split3) simp_all
  have g: "generateChunk cx s = fold (generateColumn ?off) [x + 1..CHUNK_SIZE - 1] ?s2"
    by (simp add: generateChunk_def split)
  have le: "blocks ?s2 \<subseteq>\<^sub>m blocks (generateChunk cx s)"
    unfolding g by (rule fold_le) (rule generateColumn_le)
  from generateColumn_at(1) [of y ?s1 ?off x] y
  obtain b where "blocks ?s2 (?w, y, 0) = Some b"
    by (auto simp add: pf)
  from le_SomeD [OF le this]
  show "blocks (generateChunk cx s) (?w, y, 0) \<noteq> None" by simp
  assume free: "blocks s (?w, y, 0) = None"
    and side: "x = 0 \<or> y \<noteq> terrainHeight (platform s) (?w - 1) + 4"
  have "blocks ?s1 (?w, y, 0) = blocks s (?w, y, 0)"
  proof (rule fold_generateColumn_untouched, intro ballI conjI impI)
    fix x' assume x': "x' \<in> set [0..x - 1]"
    then show "?off + x' < ?w" by simp
    assume e: "?off + x' + 1 = ?w"
    then have 1: "?off + x' = ?w - 1" by simp
    have 2: "x \<noteq> 0" using x' e by auto
    show "y \<noteq> terrainHeight (platform s) (?off + x') + 4"
      unfolding 1 using side 2 by blast
  qed
  with free have "blocks ?s1 (?w, y, 0) = None" by simp
  from generateColumn_at(2) [of y ?s1 ?off x, OF _ _ this] y
  have "blocks ?s2 (?w, y, 0)
      = Some \<lparr>btype = (if y = terrainHeight (platform s) ?w then Grass else Dirt),
              bkey = (?w, y, 0)\<rparr>"
    by (simp add: pf)
  from le_SomeD [OF le this]
  show "blocks (generateChunk cx s) (?w, y, 0)
        = Some \<lparr>btype = (if y = terrainHeight (platform s) ?w then Grass else Dirt),
                bkey = (?w, y, 0)\<rparr>" .
qed

lemma sin_lipschitz: "\<bar>sin u - sin v\<bar> \<le> \<bar>u - v\<bar>" for u v :: real
proof -
  have "\<bar>sin u - sin v\<bar> = 2 * \<bar>sin ((u - v) / 2)\<bar> * \<bar>cos ((u + v) / 2)\<bar>"
    by (simp add: sin_diff_sin abs_mult)
  also have "\<dots> \<le> 2 * \<bar>(u - v) / 2\<bar> * 1"
    by (intro mult_mono mult_nonneg_nonneg abs_sin_x_le_abs_x abs_cos_le_one) simp_all
  finally show ?thesis by simp
qed

text \<open>
  Without rounding, neighbouring columns differ by at most three in height, so the stone
  platform of a column lies above the terrain of the next one.
\<close>

lemma terrainHeight_step: "terrainHeight exactMath (w + 1) \<le> terrainHeight exactMath w + 3"
proof -
  let ?u = "real_of_int (w + 1) * 0.1" and ?v = "real_of_int w * 0.1"
  define A where "A = \<lfloor>sin ?u * 2\<rfloor>"
  define B where "B = \<lfloor>cos (real_of_int (w + 1) * 0.5) * 1\<rfloor>"
  define C where "C = \<lfloor>sin ?v * 2\<rfloor>"
  define D where "D = \<lfloor>cos (real_of_int w * 0.5) * 1\<rfloor>"
  have "sin ?u - sin ?v \<le> \<bar>?u - ?v\<bar>" using sin_lipschitz [of ?u ?v] by linarith
  then have "sin ?u * 2 \<le> sin ?v * 2 + 1" by (simp add: algebra_simps)
  then have "\<lfloor>sin ?u * 2\<rfloor> \<le> \<lfloor>sin ?v * 2 + 1\<rfloor>" by (rule floor_mono)
  then have a: "A \<le> C + 1" by (simp add: A_def C_def)
  have "cos (real_of_int (w + 1) * 0.5) * 1 < 2"
    using cos_le_one [of "real_of_int (w + 1) * 0.5"] by linarith
  then have b: "B \<le> 1" by (simp add: B_def floor_le_iff)
  have c: "- 1 \<le> D" by (simp add: D_def le_floor_iff)
  have 1: "terrainHeight exactMath (w + 1) = (if A + B < - 2 then - 2 else A + B)"
    by (simp add: terrainHeight_def exactMath_def A_def B_def Let_def)
  have 2: "terrainHeight exactMath w = (if C + D < - 2 then - 2 else C + D)"
    by (simp add: terrainHeight_def exactMath_def C_def D_def Let_def)
  show ?thesis unfolding 1 2 using a b c by (simp split: if_splits)
qed

lemma terrainHeight_0: "terrainHeight exactMath 0 = 1"
  by (simp add: terrainHeight_def exactMath_def)

lemma platform_blank: "platform blank = exactMath"
  by (simp add: blank_def fresh_def)

lemma generateChunk_le: "blocks s \<subseteq>\<^sub>m blocks (generateChunk cx s)"
  unfolding generateChunk_def by (rule fold_le) (rule generateColumn_le)

lemma ensureChunk_le: "blocks s \<subseteq>\<^sub>m blocks (ensureChunk cx s)"
  by (simp add: ensureChunk_def Let_def generateChunk_le)

lemma platform_ensureChunk: "platform (ensureChunk cx s) = platform s"
  by (rule terrainOnlyD [OF terrainOnly_ensureChunk])

lemma fold_ensureChunk_cells:
  assumes x: "0 \<le> x" "x < CHUNK_SIZE" and y: "- 4 \<le> y"
  shows "cx \<in> set cs \<Longrightarrow> cx \<notin> chunksGenerated s \<Longrightarrow>
     y \<le> terrainHeight (platform s) (cx * CHUNK_SIZE + x) \<Longrightarrow>
     blocks (fold ensureChunk cs s) (cx * CHUNK_SIZE + x, y, 0) \<noteq> None"
proof (induction cs arbitrary: s)
  case Nil
  then show ?case by simp
next
  case (Cons c cs)
  show ?case
  proof (cases "c = cx")
    case True
    from generateChunk_cells(1) [OF x y Cons.prems(3)]
    obtain b where "blocks (generateChunk cx s) (cx * CHUNK_SIZE + x, y, 0) = Some b" by auto
    then have "blocks (ensureChunk c s) (cx * CHUNK_SIZE + x, y, 0) = Some b"
      using True Cons.prems(2) by (simp add: ensureChunk_new)
    moreover have "blocks (ensureChunk c s) \<subseteq>\<^sub>m blocks (fold ensureChunk cs (ensureChunk c s))"
      by (rule fold_le) (rule ensureChunk_le)
    ultimately show ?thesis using le_SomeD by fastforce
  next
    case False
    with Cons.prems have "cx \<in> set cs" "cx \<notin> chunksGenerated (ensureChunk c s)"
      "y \<le> terrainHeight (platform (ensureChunk c s)) (cx * CHUNK_SIZE + x)"
      by (simp_all add: chunksGenerated_ensureChunk platform_ensureChunk)
    from Cons.IH [OF this] show ?thesis by simp
  qed
qed

section \<open>Falling onto a flat floor\<close>

lemma fold_unchanged_on: "(\<And>a p. a \<in> set xs \<Longrightarrow> f a p = p) \<Longrightarrow> fold f xs p = p"
  by (induction xs) simp_all

lemma collideCell_free: "bs (x, y, z) = None \<Longrightarrow> collideCell ax bs x y z p = p"
  by (simp add: collideCell_def)

lemma flatFloor_None:
  "flatFloor lo hi bs \<Longrightarrow> (bs (x, y, z) = None) = (\<not> (y = 0 \<and> z = 0 \<and> lo \<le> x \<and> x \<le> hi))"
  unfolding flatFloor_def by blast

lemma inner_fold:
  assumes "flatFloor lo hi bs"
  shows "fold (\<lambda>y. collideCell ax bs x y 0) [c..d]
     = (\<lambda>p. if c \<le> 0 \<and> 0 \<le> d \<and> lo \<le> x \<and> x \<le> hi then collideCell ax bs x 0 0 p else p)"
proof (rule ext, cases "c \<le> 0 \<and> 0 \<le> d")
  fix p
  case True
  then have split: "[c..d] = [c..- 1] @ 0 # [1..d]" using upto_split3 [of c 0 d] by simp
  have free: "collideCell ax bs x y 0 q = q" if "y \<noteq> 0" for y q
    using that by (intro collideCell_free) (simp add: flatFloor_None [OF assms])
  have 1: "fold (\<lambda>y. collideCell ax bs x y 0) [c..- 1] p = p"
    by (rule fold_unchanged_on) (simp add: free)
  have 2: "fold (\<lambda>y. collideCell ax bs x y 0) [1..d] q = q" for q
    by (rule fold_unchanged_on) (simp add: free)
  have 3: "collideCell ax bs x 0 0 p = p" if "\<not> (lo \<le> x \<and> x \<le> hi)"
    using that by (intro collideCell_free) (simp add: flatFloor_None [OF assms])
  show "fold (\<lambda>y. collideCell ax bs x y 0) [c..d] p
     = (if c \<le> 0 \<and> 0 \<le> d \<and> lo \<le> x \<and> x \<le> hi then collideCell ax bs x 0 0 p else p)"
    using True 3 by (auto simp add: split 1 2)
next
  fix p
  case False
  have "fold (\<lambda>y. collideCell ax bs x y 0) [c..d] p = p"
    using False by (intro fold_unchanged_on collideCell_free) (auto simp add: flatFloor_None [OF assms])
  with False show "fold (\<lambda>y. collideCell ax bs x y 0) [c..d] p
     = (if c \<le> 0 \<and> 0 \<le> d \<and> lo \<le> x \<and> x \<le> hi then collideCell ax bs x 0 0 p else p)"
    by auto
qed

lemma checkCollision_floor:
  assumes "flatFloor lo hi bs"
  shows "checkCollision ax bs p
     = (if \<lfloor>yv (position p) - 0.4\<rfloor> \<le> 0 \<and> 0 \<le> \<lfloor>yv (position p) + 0.4\<rfloor>
        then fold (\<lambda>x q. if lo \<le> x \<and> x \<le> hi then collideCell ax bs x 0 0 q else q)
               [\<lfloor>xv (position p) - 0.35\<rfloor>..\<lfloor>xv (position p) + 0.35\<rfloor>] p
        else p)"
  unfolding checkCollision_def Let_def inner_fold [OF assms]
  by (auto simp add: fold_unchanged)

lemma checkCollision_miss:
  assumes "flatFloor lo hi bs"
    and "\<not> (\<lfloor>yv (position p) - 0.4\<rfloor> \<le> 0 \<and> 0 \<le> \<lfloor>yv (position p) + 0.4\<rfloor>)"
  shows "checkCollision ax bs p = p"
  unfolding checkCollision_floor [OF assms(1)] using assms(2) by auto

lemma collideCell_land:
  assumes "flatFloor lo hi bs" and "lo \<le> x" and "x \<le> hi" and "yv (velocity p) \<le> 0"
  shows "collideCell AxisY bs x 0 0 p = land p"
proof -
  from assms(1-3) have "bs (x, 0, 0) \<noteq> None" by (simp add: flatFloor_def)
  with assms(4) show ?thesis by (simp add: collideCell_def land_def)
qed

lemma land_land: "land (land p) = land p" "yv (velocity (land p)) = 0"
  by (simp_all add: land_def)

lemma outer_fold_land:
  assumes "flatFloor lo hi bs" and "yv (velocity p) \<le> 0"
  shows "fold (\<lambda>x q. if lo \<le> x \<and> x \<le> hi then collideCell AxisY bs x 0 0 q else q) xs p
     = (if \<exists>x\<in>set xs. lo \<le> x \<and> x \<le> hi then land p else p)"
  using assms(2)
proof (induction xs arbitrary: p)
  case Nil
  show ?case by simp
next
  case (Cons a xs)
  show ?case
  proof (cases "lo \<le> a \<and> a \<le> hi")
    case True
    then have "collideCell AxisY bs a 0 0 p = land p"
      using collideCell_land [OF assms(1) _ _ Cons.prems] by simp
    moreover have "fold (\<lambda>x q. if lo \<le> x \<and> x \<le> hi then collideCell AxisY bs x 0 0 q else q) xs (land p)
        = (if \<exists>x\<in>set xs. lo \<le> x \<and> x \<le> hi then land (land p) else land p)"
      by (rule Cons.IH) (simp add: land_land)
    ultimately show ?thesis using True by (simp add: land_land)
  next
    case False
    then show ?thesis using Cons.IH [OF Cons.prems] by auto
  qed
qed

lemma checkCollision_land:
  assumes "flatFloor lo hi bs" and "yv (velocity p) \<le> 0"
    and "\<lfloor>yv (position p) - 0.4\<rfloor> \<le> 0" and "0 \<le> \<lfloor>yv (position p) + 0.4\<rfloor>"
    and "\<exists>x\<in>{\<lfloor>xv (position p) - 0.35\<rfloor>..\<lfloor>xv (position p) + 0.35\<rfloor>}. lo \<le> x \<and> x \<le> hi"
  shows "checkCollision AxisY bs p = land p"
  unfolding checkCollision_floor [OF assms(1)] outer_fold_land [OF assms(1,2)]
  using assms(3,4,5) by auto

lemma collideCell_pushX:
  assumes "flatFloor lo hi bs" and "lo \<le> x" and "x \<le> hi" and "xv (velocity p) \<le> 0"
  shows "collideCell AxisX bs x 0 0 p = pushX x p"
proof -
  from assms(1-3) have "bs (x, 0, 0) \<noteq> None" by (simp add: flatFloor_def)
  with assms(4) show ?thesis by (simp add: collideCell_def pushX_def)
qed

lemma pushX_vel: "xv (velocity (pushX x p)) = 0" "pushX x (pushX x' p) = pushX x p"
  by (simp_all add: pushX_def)

lemma xrange: "\<lfloor>x - 0.35\<rfloor> \<le> \<lfloor>x + 0.35\<rfloor>" "\<lfloor>x + 0.35\<rfloor> \<le> \<lfloor>x - 0.35\<rfloor> + 1" for x :: real
proof -
  show "\<lfloor>x - 0.35\<rfloor> \<le> \<lfloor>x + 0.35\<rfloor>" by (rule floor_mono) simp
  show "\<lfloor>x + 0.35\<rfloor> \<le> \<lfloor>x - 0.35\<rfloor> + 1"
    unfolding one_add_floor by (rule floor_mono) simp
qed

lemma upto_short:
  assumes "a \<le> b" and "b \<le> a + 1"
  shows "[a..b] = (if a = b then [a] else [a, b])"
proof (cases "a = b")
  case True
  then show ?thesis by simp
next
  case False
  with assms have "b = a + 1" by simp
  then show ?thesis using False by (simp add: upto_rec1 [of a "a + 1"])
qed

lemma checkCollision_pushX:
  assumes "flatFloor lo hi bs" and "xv (velocity p) \<le> 0"
    and "\<lfloor>yv (position p) - 0.4\<rfloor> \<le> 0" and "0 \<le> \<lfloor>yv (position p) + 0.4\<rfloor>"
  shows "checkCollision AxisX bs p
     = (let a = \<lfloor>xv (position p) - 0.35\<rfloor>; b = \<lfloor>xv (position p) + 0.35\<rfloor> in
        if lo \<le> b \<and> b \<le> hi then pushX b p
        else if lo \<le> a \<and> a \<le> hi then pushX a p else p)"
proof -
  let ?a = "\<lfloor>xv (position p) - 0.35\<rfloor>" and ?b = "\<lfloor>xv (position p) + 0.35\<rfloor>"
  let ?f = "\<lambda>x q. if lo \<le> x \<and> x \<le> hi then collideCell AxisX bs x 0 0 q else q"
  have c: "checkCollision AxisX bs p = fold ?f [?a..?b] p"
    unfolding checkCollision_floor [OF assms(1)] using assms(3,4) by auto
  have r: "[?a..?b] = (if ?a = ?b then [?a] else [?a, ?b])"
    by (rule upto_short) (rule xrange)+
  have f: "?f x q = (if lo \<le> x \<and> x \<le> hi then pushX x q else q)"
    if "xv (velocity q) \<le> 0" for x q
    using collideCell_pushX [OF assms(1) _ _ that] by simp
  have fa: "?f ?a p = (if lo \<le> ?a \<and> ?a \<le> hi then pushX ?a p else p)"
    by (rule f) (rule assms(2))
  have v: "xv (velocity (?f ?a p)) \<le> 0"
    unfolding fa using assms(2) by (simp add: pushX_vel)
  show ?thesis
    unfolding c r Let_def
    using f [OF v, of ?b] fa by (auto simp add: pushX_vel)
qed

lemma drag_clamp: "max (min (0::real) (if b then SPRINT_SPEED else MOVE_SPEED)) (- (if b then SPRINT_SPEED else MOVE_SPEED)) = 0"
  by (simp add: config_defs)

lemma fall_step:
  assumes fl: "flatFloor lo hi bs" and r: "input_r inp = 0"
    and vx: "xv (velocity p) = 0"
    and y: "1.4 \<le> yv (position p)"
    and y': "1.4 \<le> yv (position p) + (yv (velocity p) - 40 * dt) * dt"
  shows "movePlayer dt inp bs p
     = p\<lparr>velocity := (velocity p)\<lparr>xv := 0, yv := yv (velocity p) - 40 * dt\<rparr>,
         position := (position p)\<lparr>yv := yv (position p) + (yv (velocity p) - 40 * dt) * dt\<rparr>\<rparr>"
proof -
  let ?p1 = "p\<lparr>velocity := (velocity p)\<lparr>xv := 0, yv := yv (velocity p) - 40 * dt\<rparr>\<rparr>"
  have 1: "checkCollision AxisX bs ?p1 = ?p1"
    by (rule checkCollision_miss [OF fl]) (use y in simp)
  let ?p2 = "?p1\<lparr>position := (position ?p1)\<lparr>yv := yv (position p) + (yv (velocity p) - 40 * dt) * dt\<rparr>\<rparr>"
  have 2: "checkCollision AxisY bs ?p2 = ?p2"
    by (rule checkCollision_miss [OF fl]) (use y' in simp)
  show ?thesis
    using 1 2 by (simp add: movePlayer_def Let_def r vx drag_clamp GRAVITY_def DRAG_def)
qed

lemma land_step:
  assumes fl: "flatFloor lo hi bs" and r: "input_r inp = 0"
    and vx: "xv (velocity p) = 0"
    and y: "1.4 \<le> yv (position p)"
    and y'1: "- 0.4 \<le> yv (position p) + (yv (velocity p) - 40 * dt) * dt"
    and y'2: "yv (position p) + (yv (velocity p) - 40 * dt) * dt < 1.4"
    and v: "yv (velocity p) - 40 * dt \<le> 0"
    and span: "lo \<le> \<lfloor>xv (position p) - 0.35\<rfloor>" "\<lfloor>xv (position p) + 0.35\<rfloor> \<le> hi"
  shows "movePlayer dt inp bs p = groundState p (xv (position p))"
proof -
  let ?p1 = "p\<lparr>velocity := (velocity p)\<lparr>xv := 0, yv := yv (velocity p) - 40 * dt\<rparr>\<rparr>"
  have 1: "checkCollision AxisX bs ?p1 = ?p1"
    by (rule checkCollision_miss [OF fl]) (use y in simp)
  let ?p2 = "?p1\<lparr>position := (position ?p1)\<lparr>yv := yv (position p) + (yv (velocity p) - 40 * dt) * dt\<rparr>\<rparr>"
  have "\<lfloor>xv (position p) - 0.35\<rfloor> \<in> {\<lfloor>xv (position p) - 0.35\<rfloor>..\<lfloor>xv (position p) + 0.35\<rfloor>}"
    using xrange(1) [of "xv (position p)"] by simp
  moreover have "\<lfloor>xv (position p) - 0.35\<rfloor> \<le> hi"
    using xrange(1) [of "xv (position p)"] span(2) by linarith
  ultimately have ex: "\<exists>x\<in>{\<lfloor>xv (position ?p2) - 0.35\<rfloor>..\<lfloor>xv (position ?p2) + 0.35\<rfloor>}. lo \<le> x \<and> x \<le> hi"
    using span(1) by auto
  have 2: "checkCollision AxisY bs ?p2 = land ?p2"
    by (rule checkCollision_land [OF fl _ _ _ ex]) (use y'1 y'2 v in simp_all)
  show ?thesis
    using 1 2 vx
    by (cases p, cases "position p", cases "velocity p")
      (simp add: movePlayer_def Let_def r drag_clamp GRAVITY_def DRAG_def land_def groundState_def)
qed

lemma floor_cell: "\<lfloor>real_of_int c + 0.85 - 0.35\<rfloor> = c" "\<lfloor>real_of_int c + 0.85 + 0.35\<rfloor> = c + 1"
  by (simp_all add: floor_eq_iff)

lemma ground_step:
  assumes fl: "flatFloor lo hi bs" and r: "input_r inp = 0"
    and dt: "0 < dt" "dt \<le> 0.1"
    and c: "c = (if lo \<le> \<lfloor>x + 0.35\<rfloor> \<and> \<lfloor>x + 0.35\<rfloor> \<le> hi then \<lfloor>x + 0.35\<rfloor> else \<lfloor>x - 0.35\<rfloor>)"
    and occ: "lo \<le> c" "c \<le> hi"
  shows "movePlayer dt inp bs (groundState q x) = groundState q (real_of_int c + 0.85)"
proof -
  define d2 where "d2 = dt * dt"
  define P1 where "P1 = \<lparr>position = \<lparr>xv = x, yv = 0.9, zv = zv (position q)\<rparr>,
      velocity = \<lparr>xv = 0, yv = - (40 * dt), zv = zv (velocity q)\<rparr>,
      onGround = True, canDoubleJump = canDoubleJump q\<rparr>"
  define P1x where "P1x = \<lparr>position = \<lparr>xv = real_of_int c + 0.85, yv = 0.9, zv = zv (position q)\<rparr>,
      velocity = \<lparr>xv = 0, yv = - (40 * dt), zv = zv (velocity q)\<rparr>,
      onGround = True, canDoubleJump = canDoubleJump q\<rparr>"
  define P2 where "P2 = \<lparr>position = \<lparr>xv = real_of_int c + 0.85, yv = 0.9 - 40 * d2, zv = zv (position q)\<rparr>,
      velocity = \<lparr>xv = 0, yv = - (40 * dt), zv = zv (velocity q)\<rparr>,
      onGround = True, canDoubleJump = canDoubleJump q\<rparr>"
  have q: "0 \<le> d2" "d2 \<le> 0.1 * 0.1"
    unfolding d2_def using dt by (simp, intro mult_mono) simp_all
  have "checkCollision AxisX bs P1
      = (let a = \<lfloor>xv (position P1) - 0.35\<rfloor>; b = \<lfloor>xv (position P1) + 0.35\<rfloor> in
         if lo \<le> b \<and> b \<le> hi then pushX b P1
         else if lo \<le> a \<and> a \<le> hi then pushX a P1 else P1)"
    by (rule checkCollision_pushX [OF fl]) (simp_all add: P1_def)
  moreover have "xv (position P1) = x" by (simp add: P1_def)
  ultimately have "checkCollision AxisX bs P1 = pushX c P1"
    using occ c by (auto simp add: Let_def)
  then have 1: "checkCollision AxisX bs P1 = P1x"
    by (simp add: pushX_def P1_def P1x_def)
  have ex: "\<exists>x\<in>{\<lfloor>xv (position P2) - 0.35\<rfloor>..\<lfloor>xv (position P2) + 0.35\<rfloor>}. lo \<le> x \<and> x \<le> hi"
    using occ by (auto simp add: P2_def floor_cell intro!: bexI [of _ c])
  have "checkCollision AxisY bs P2 = land P2"
  proof (rule checkCollision_land [OF fl _ _ _ ex])
    show "yv (velocity P2) \<le> 0" using dt by (simp add: P2_def)
    show "\<lfloor>yv (position P2) - 0.4\<rfloor> \<le> 0" using q by (simp add: P2_def)
    show "0 \<le> \<lfloor>yv (position P2) + 0.4\<rfloor>" using q by (simp add: P2_def)
  qed
  then have 2: "checkCollision AxisY bs P2 = groundState q (real_of_int c + 0.85)"
    by (simp add: land_def P2_def groundState_def)
  have m: "movePlayer dt inp bs (groundState q x)
      = checkCollision AxisY bs ((checkCollision AxisX bs P1)
          \<lparr>position := (position (checkCollision AxisX bs P1))
              \<lparr>yv := yv (position (checkCollision AxisX bs P1))
                     + yv (velocity (checkCollision AxisX bs P1)) * dt\<rparr>\<rparr>)"
    by (simp add: movePlayer_def Let_def r drag_clamp GRAVITY_def DRAG_def groundState_def P1_def)
  have e: "P1x\<lparr>position := (position P1x)\<lparr>yv := yv (position P1x) + yv (velocity P1x) * dt\<rparr>\<rparr> = P2"
    by (simp add: P1x_def P2_def d2_def)
  show ?thesis
    unfolding m 1 e 2 ..
qed

lemma fallState_0:
  "xv (velocity p) = 0 \<Longrightarrow> yv (velocity p) = 0 \<Longrightarrow> fallState dt p 0 = p"
  by (cases p, cases "position p", cases "velocity p") (simp add: fallState_def)

lemma fall_iter:
  assumes fl: "flatFloor lo hi bs" and r: "input_r inp = 0"
    and v0: "xv (velocity p) = 0" "yv (velocity p) = 0"
  shows "\<forall>j\<le>k. 1.4 \<le> yv (position p) - 20 * dt * dt * real j * (real j + 1) \<Longrightarrow>
     (movePlayer dt inp bs ^^ k) p = fallState dt p k"
proof (induction k)
  case 0
  show ?case by (simp add: fallState_0 v0)
next
  case (Suc k)
  then have IH: "(movePlayer dt inp bs ^^ k) p = fallState dt p k" by simp
  have y: "1.4 \<le> yv (position (fallState dt p k))"
    using Suc.prems by (simp add: fallState_def)
  have e: "yv (position (fallState dt p k)) + (yv (velocity (fallState dt p k)) - 40 * dt) * dt
      = yv (position p) - 20 * dt * dt * real (Suc k) * (real (Suc k) + 1)"
    by (simp add: fallState_def algebra_simps)
  have y': "1.4 \<le> yv (position (fallState dt p k))
      + (yv (velocity (fallState dt p k)) - 40 * dt) * dt"
    unfolding e using Suc.prems by blast
  let ?q = "fallState dt p k"
  have "movePlayer dt inp bs ?q
      = ?q\<lparr>velocity := (velocity ?q)\<lparr>xv := 0, yv := yv (velocity ?q) - 40 * dt\<rparr>,
           position := (position ?q)\<lparr>yv := yv (position ?q) + (yv (velocity ?q) - 40 * dt) * dt\<rparr>\<rparr>"
    by (rule fall_step [OF fl r _ y y']) (simp add: fallState_def)
  also have "\<dots> = fallState dt p (Suc k)"
    by (simp add: fallState_def algebra_simps)
  finally show ?case by (simp add: IH)
qed

lemma groundState_fallState: "groundState (fallState dt p k) x = groundState p x"
  by (simp add: groundState_def fallState_def)

lemma groundState_groundState: "groundState (groundState p x) x' = groundState p x'"
  by (simp add: groundState_def)

lemma land_iter:
  assumes fl: "flatFloor lo hi bs" and r: "input_r inp = 0"
    and v0: "xv (velocity p) = 0" "yv (velocity p) = 0"
    and span: "lo \<le> \<lfloor>xv (position p) - 0.35\<rfloor>" "\<lfloor>xv (position p) + 0.35\<rfloor> \<le> hi"
    and dt: "0 < dt"
    and above: "\<forall>j\<le>k. 1.4 \<le> yv (position p) - 20 * dt * dt * real j * (real j + 1)"
    and hit: "yv (position p) - 20 * dt * dt * real (Suc k) * (real (Suc k) + 1) < 1.4"
      "- 0.4 \<le> yv (position p) - 20 * dt * dt * real (Suc k) * (real (Suc k) + 1)"
  shows "(movePlayer dt inp bs ^^ Suc k) p = groundState p (xv (position p))"
proof -
  let ?q = "fallState dt p k"
  have IH: "(movePlayer dt inp bs ^^ k) p = ?q"
    by (rule fall_iter [OF fl r v0 above])
  have y: "1.4 \<le> yv (position ?q)"
    using above by (simp add: fallState_def)
  have e: "yv (position ?q) + (yv (velocity ?q) - 40 * dt) * dt
      = yv (position p) - 20 * dt * dt * real (Suc k) * (real (Suc k) + 1)"
    by (simp add: fallState_def algebra_simps)
  have vq: "yv (velocity ?q) = - (40 * real k * dt)" by (simp add: fallState_def)
  have "0 \<le> 40 * real k * dt" by (intro mult_nonneg_nonneg) (use dt in simp_all)
  then have v: "yv (velocity ?q) - 40 * dt \<le> 0"
    unfolding vq using dt by linarith
  have "movePlayer dt inp bs ?q = groundState ?q (xv (position ?q))"
    by (rule land_step [OF fl r _ y _ _ v]) (use hit span in \<open>simp_all add: e\<close>, simp_all add: fallState_def)
  then show ?thesis
    by (simp add: IH groundState_fallState) (simp add: fallState_def)
qed

lemma slide_iter:
  assumes fl: "flatFloor lo hi bs" and r: "input_r inp = 0"
    and dt: "0 < dt" "dt \<le> 0.1"
    and c: "lo \<le> c" "c \<le> hi"
  shows "(movePlayer dt inp bs ^^ j) (groundState q (real_of_int c + 0.85))
     = groundState q (real_of_int (min (c + int j) hi) + 0.85)"
proof (induction j)
  case 0
  show ?case using c by (simp add: min_def)
next
  case (Suc j)
  let ?c = "min (c + int j) hi"
  have c': "lo \<le> ?c" "?c \<le> hi" using c by simp_all
  have fc: "\<lfloor>real_of_int ?c + 0.85 - 0.35\<rfloor> = ?c" "\<lfloor>real_of_int ?c + 0.85 + 0.35\<rfloor> = ?c + 1"
    by (rule floor_cell)+
  have n: "min (c + int (Suc j)) hi
      = (if lo \<le> \<lfloor>real_of_int ?c + 0.85 + 0.35\<rfloor> \<and> \<lfloor>real_of_int ?c + 0.85 + 0.35\<rfloor> \<le> hi
         then \<lfloor>real_of_int ?c + 0.85 + 0.35\<rfloor> else \<lfloor>real_of_int ?c + 0.85 - 0.35\<rfloor>)"
    unfolding fc using c by (auto simp add: min_def)
  have "movePlayer dt inp bs (groundState q (real_of_int ?c + 0.85))
      = groundState q (real_of_int (min (c + int (Suc j)) hi) + 0.85)"
    by (rule ground_step [OF fl r dt n]) (use c in simp_all)
  then show ?case using Suc.IH by simp
qed

lemma landing_bound:
  fixes dt :: real
  assumes dt: "0 < dt" "dt \<le> 0.1"
    and above: "20 * dt * dt * real n * (real n + 1) \<le> 3.6"
  shows "20 * dt * dt * real (Suc n) * (real (Suc n) + 1) \<le> 5.4"
proof -
  define t where "t = 20 * dt * dt * (real n + 1)"
  have "dt * dt \<le> 0.1 * 0.1" using dt by (intro mult_mono) simp_all
  then have q: "20 * dt * dt \<le> 0.2" by simp
  have t0: "0 \<le> t" unfolding t_def using dt by simp
  have tn: "t * real n \<le> 3.6" using above by (simp add: t_def algebra_simps)
  have goal: "20 * dt * dt * real (Suc n) * (real (Suc n) + 1) = t * (real n + 2)"
    by (simp add: t_def algebra_simps)
  show ?thesis
  proof (cases "n \<le> 3")
    case True
    then have "real n + 1 \<le> 4" by simp
    then have "20 * dt * dt * (real n + 1) \<le> 0.2 * 4"
      using q dt by (intro mult_mono) simp_all
    then have "t \<le> 0.8" by (simp add: t_def)
    moreover have "real n + 2 \<le> 5" using True by simp
    ultimately have "t * (real n + 2) \<le> 0.8 * 5"
      using t0 by (intro mult_mono) simp_all
    then show ?thesis unfolding goal by simp
  next
    case False
    then have "real n + 2 \<le> 1.5 * real n" by simp
    then have "t * (real n + 2) \<le> t * (1.5 * real n)"
      using t0 by (rule mult_left_mono)
    also have "\<dots> = 1.5 * (t * real n)" by simp
    also have "\<dots> \<le> 1.5 * 3.6" using tn by simp
    finally show ?thesis unfolding goal by simp
  qed
qed

lemma fall_ends:
  fixes dt :: real
  assumes "0 < dt"
  shows "\<exists>k. y0 - 20 * dt * dt * real k * (real k + 1) < 1.4"
proof -
  have q: "0 < 20 * dt * dt" using assms by simp
  obtain k :: nat where k: "(y0 - 1.4) / (20 * dt * dt) < real k"
    using reals_Archimedean2 by blast
  then have "y0 - 1.4 < 20 * dt * dt * real k"
    using q by (simp add: field_simps)
  also have "20 * dt * dt * real k * 1 \<le> 20 * dt * dt * real k * (real k + 1)"
    using q by (intro mult_left_mono) simp_all
  finally have "y0 - 1.4 < 20 * dt * dt * real k * (real k + 1)" by simp
  then show ?thesis by (intro exI [of _ k]) simp
qed

lemma flatFloor_floorGrid: "flatFloor lo hi (floorGrid lo hi)"
  by (simp add: flatFloor_def floorGrid_def)

lemma settle_player:
  fixes dt :: real
  assumes fl: "flatFloor lo hi bs" and r: "input_r inp = 0"
    and v0: "xv (velocity p) = 0" "yv (velocity p) = 0"
    and span: "lo \<le> \<lfloor>xv (position p) - 0.35\<rfloor>" "\<lfloor>xv (position p) + 0.35\<rfloor> \<le> hi"
    and y0: "yv (position p) = 5"
    and dt: "0 < dt" "dt \<le> 0.1"
  shows "\<forall>m. 0.9 \<le> yv (position ((movePlayer dt inp bs ^^ m) p))"
    and "\<exists>n. \<forall>m\<ge>n. (movePlayer dt inp bs ^^ m) p = groundState p (real_of_int hi + 0.85)"
    and "movePlayer dt inp bs (groundState p (real_of_int hi + 0.85))
           = groundState p (real_of_int hi + 0.85)"
proof -
  let ?step = "movePlayer dt inp bs"
  let ?Y = "\<lambda>k. yv (position p) - 20 * dt * dt * real k * (real k + 1)"
  define K where "K = (LEAST k. ?Y k < 1.4)"
  have ex: "\<exists>k. ?Y k < 1.4" by (rule fall_ends [OF dt(1)])
  have YK: "?Y K < 1.4" unfolding K_def by (rule LeastI_ex [OF ex])
  have before: "1.4 \<le> ?Y j" if "j < K" for j
    using not_less_Least [of j "\<lambda>k. ?Y k < 1.4"] that unfolding K_def by auto
  have "K \<noteq> 0" using YK y0 by (cases "K = 0") simp_all
  then obtain n where K: "K = Suc n" by (cases K) simp_all
  have above: "\<forall>j\<le>n. 1.4 \<le> ?Y j" using before K by simp
  then have "1.4 \<le> ?Y n" by simp
  then have "20 * dt * dt * real n * (real n + 1) \<le> 3.6" using y0 by simp
  from landing_bound [OF dt this] have low: "- 0.4 \<le> ?Y (Suc n)" using y0 by simp
  have hit: "?Y (Suc n) < 1.4" using YK K by simp
  have fall: "(?step ^^ m) p = fallState dt p m" if "m \<le> n" for m
    by (rule fall_iter [OF fl r v0]) (use above that in auto)
  have landed: "(?step ^^ Suc n) p = groundState p (xv (position p))"
    by (rule land_iter [OF fl r v0 span dt(1) above hit low])
  let ?b = "\<lfloor>xv (position p) + 0.35\<rfloor>"
  have b: "lo \<le> ?b" "?b \<le> hi"
    using span xrange(1) [of "xv (position p)"] by linarith+
  have first: "?step (groundState p (xv (position p))) = groundState p (real_of_int ?b + 0.85)"
    by (rule ground_step [OF fl r dt _ b]) (use b in simp)
  have slide: "(?step ^^ (j + Suc (Suc n))) p
      = groundState p (real_of_int (min (?b + int j) hi) + 0.85)" for j
  proof -
    have "(?step ^^ Suc (Suc n)) p = groundState p (real_of_int ?b + 0.85)"
      using landed first by simp
    then have "(?step ^^ (j + Suc (Suc n))) p
        = (?step ^^ j) (groundState p (real_of_int ?b + 0.85))"
      by (simp only: funpow_add comp_def)
    also have "\<dots> = groundState p (real_of_int (min (?b + int j) hi) + 0.85)"
      by (rule slide_iter [OF fl r dt b])
    finally show ?thesis .
  qed
  show "\<forall>m. 0.9 \<le> yv (position ((?step ^^ m) p))"
  proof
    fix m
    consider "m \<le> n" | "m = Suc n" | "Suc (Suc n) \<le> m" by linarith
    then show "0.9 \<le> yv (position ((?step ^^ m) p))"
    proof cases
      case 1
      then have "1.4 \<le> ?Y m" using above by simp
      then show ?thesis unfolding fall [OF 1] by (simp add: fallState_def)
    next
      case 2
      show ?thesis unfolding 2 landed by (simp add: groundState_def)
    next
      case 3
      then obtain j where "m = j + Suc (Suc n)" using le_Suc_ex add.commute by metis
      then show ?thesis using slide [of j] by (simp add: groundState_def)
    qed
  qed
  show "\<exists>n. \<forall>m\<ge>n. (?step ^^ m) p = groundState p (real_of_int hi + 0.85)"
  proof (intro exI [of _ "nat (hi - ?b) + Suc (Suc n)"] allI impI)
    fix m
    assume "nat (hi - ?b) + Suc (Suc n) \<le> m"
    then obtain j where j: "m = j + Suc (Suc n)" "nat (hi - ?b) \<le> j"
      by (metis le_add_diff_inverse2 add_le_imp_le_diff add_leD2)
    then have "min (?b + int j) hi = hi" by linarith
    then show "(?step ^^ m) p = groundState p (real_of_int hi + 0.85)"
      using slide [of j] j(1) by simp
  qed
  have "lo \<le> hi" using b by linarith
  from slide_iter [OF fl r dt this order_refl, of 1 p]
  show "?step (groundState p (real_of_int hi + 0.85)) = groundState p (real_of_int hi + 0.85)"
    by simp
qed

lemma updatePhysics_alive:
  assumes "\<not> yv (position (movePlayer dt (input s) (blocks s) (player s))) < - 10"
  shows "updatePhysics dt s = s\<lparr>player := movePlayer dt (input s) (blocks s) (player s)\<rparr>"
  using assms by (simp add: updatePhysics_def Let_def)

lemma updatePhysics_iter:
  assumes "\<forall>m. \<not> yv (position ((movePlayer dt (input s) (blocks s) ^^ m) (player s))) < - 10"
  shows "(updatePhysics dt ^^ m) s
     = s\<lparr>player := (movePlayer dt (input s) (blocks s) ^^ m) (player s)\<rparr>"
proof (induction m)
  case 0
  show ?case by simp
next
  case (Suc m)
  let ?P = "(movePlayer dt (input s) (blocks s) ^^ m) (player s)"
  have "\<not> yv (position ((movePlayer dt (input s) (blocks s) ^^ Suc m) (player s))) < - 10"
    using assms by blast
  then have a: "\<not> yv (position (movePlayer dt (input (s\<lparr>player := ?P\<rparr>))
      (blocks (s\<lparr>player := ?P\<rparr>)) (player (s\<lparr>player := ?P\<rparr>)))) < - 10"
    by simp
  show ?case
    using updatePhysics_alive [OF a] by (simp add: Suc.IH)
qed

lemma settle_engine:
  fixes dt :: real
  assumes fl: "flatFloor lo hi (blocks s)"
    and span: "lo \<le> \<lfloor>xv (position (player s)) - 0.35\<rfloor>"
      "\<lfloor>xv (position (player s)) + 0.35\<rfloor> \<le> hi"
    and y0: "yv (position (player s)) = 5"
    and v0: "xv (velocity (player s)) = 0" "yv (velocity (player s)) = 0"
    and r: "input_r (input s) = 0"
    and dt: "0 < dt" "dt \<le> 0.1"
  shows "\<forall>m. 0.9 \<le> yv (position (player ((updatePhysics dt ^^ m) s)))"
    and "\<exists>n. \<forall>m\<ge>n. yv (position (player ((updatePhysics dt ^^ m) s))) = 0.9
           \<and> onGround (player ((updatePhysics dt ^^ m) s))
           \<and> updatePhysics dt ((updatePhysics dt ^^ m) s) = (updatePhysics dt ^^ m) s"
proof -
  let ?step = "movePlayer dt (input s) (blocks s)"
  note sp = settle_player [OF fl r v0 span y0 dt]
  have alive: "\<forall>m. \<not> yv (position ((?step ^^ m) (player s))) < - 10"
  proof
    fix m
    from sp(1) have "0.9 \<le> yv (position ((?step ^^ m) (player s)))" by blast
    then show "\<not> yv (position ((?step ^^ m) (player s))) < - 10" by simp
  qed
  note it = updatePhysics_iter [OF alive]
  show "\<forall>m. 0.9 \<le> yv (position (player ((updatePhysics dt ^^ m) s)))"
    using sp(1) by (simp add: it)
  from sp(2) obtain n where n: "\<forall>m\<ge>n. (?step ^^ m) (player s)
      = groundState (player s) (real_of_int hi + 0.85)"
    by blast
  show "\<exists>n. \<forall>m\<ge>n. yv (position (player ((updatePhysics dt ^^ m) s))) = 0.9
           \<and> onGround (player ((updatePhysics dt ^^ m) s))
           \<and> updatePhysics dt ((updatePhysics dt ^^ m) s) = (updatePhysics dt ^^ m) s"
  proof (intro exI [of _ n] allI impI)
    fix m
    assume m: "n \<le> m"
    then have P: "(?step ^^ m) (player s) = groundState (player s) (real_of_int hi + 0.85)"
      using n by blast
    have "(?step ^^ Suc m) (player s) = (?step ^^ m) (player s)"
      using sp(3) by (simp add: P)
    then have "(updatePhysics dt ^^ Suc m) s = (updatePhysics dt ^^ m) s"
      by (simp only: it)
    then show "yv (position (player ((updatePhysics dt ^^ m) s))) = 0.9
           \<and> onGround (player ((updatePhysics dt ^^ m) s))
           \<and> updatePhysics dt ((updatePhysics dt ^^ m) s) = (updatePhysics dt ^^ m) s"
      by (simp add: it P groundState_def)
  qed
qed

lemma dropped_hyps:
  "flatFloor (- 1) 0 (blocks dropped)"
  "- 1 \<le> \<lfloor>xv (position (player dropped)) - 0.35\<rfloor>"
  "\<lfloor>xv (position (player dropped)) + 0.35\<rfloor> \<le> 0"
  "yv (position (player dropped)) = 5"
  "xv (velocity (player dropped)) = 0" "yv (velocity (player dropped)) = 0"
  "input_r (input dropped) = 0"
  by (simp_all add: dropped_def blank_def fresh_def flatFloor_floorGrid)

lemma miss_step:
  assumes fl: "flatFloor lo hi bs" and r: "input_r inp = 0"
    and vx: "xv (velocity p) = 0"
    and m1: "\<not> (\<lfloor>yv (position p) - 0.4\<rfloor> \<le> 0 \<and> 0 \<le> \<lfloor>yv (position p) + 0.4\<rfloor>)"
    and m2: "\<not> (\<lfloor>yv (position p) + (yv (velocity p) - 40 * dt) * dt - 0.4\<rfloor> \<le> 0
                \<and> 0 \<le> \<lfloor>yv (position p) + (yv (velocity p) - 40 * dt) * dt + 0.4\<rfloor>)"
  shows "movePlayer dt inp bs p
     = p\<lparr>velocity := (velocity p)\<lparr>xv := 0, yv := yv (velocity p) - 40 * dt\<rparr>,
         position := (position p)\<lparr>yv := yv (position p) + (yv (velocity p) - 40 * dt) * dt\<rparr>\<rparr>"
proof -
  let ?p1 = "p\<lparr>velocity := (velocity p)\<lparr>xv := 0, yv := yv (velocity p) - 40 * dt\<rparr>\<rparr>"
  have 1: "checkCollision AxisX bs ?p1 = ?p1"
    by (rule checkCollision_miss [OF fl]) (use m1 in simp)
  let ?p2 = "?p1\<lparr>position := (position ?p1)\<lparr>yv := yv (position p) + (yv (velocity p) - 40 * dt) * dt\<rparr>\<rparr>"
  have 2: "checkCollision AxisY bs ?p2 = ?p2"
    by (rule checkCollision_miss [OF fl]) (use m2 in simp)
  show ?thesis
    using 1 2 by (simp add: movePlayer_def Let_def r vx drag_clamp GRAVITY_def DRAG_def)
qed

lemma dive_step:
  assumes fl: "flatFloor lo hi bs" and r: "input_r inp = 0"
    and vx: "xv (velocity p) = 0" and vy: "yv (velocity p) \<le> - 1000"
    and y: "yv (position p) = 5 \<or> yv (position p) \<le> - 95"
  shows "xv (velocity (movePlayer 0.1 inp bs p)) = 0
    \<and> yv (velocity (movePlayer 0.1 inp bs p)) \<le> - 1000
    \<and> yv (position (movePlayer 0.1 inp bs p)) \<le> - 95
    \<and> onGround (movePlayer 0.1 inp bs p) = onGround p"
proof -
  have "(yv (velocity p) - 40 * 0.1) * 0.1 \<le> - 100" using vy by simp
  moreover have "yv (position p) \<le> 5" using y by auto
  ultimately have y': "yv (position p) + (yv (velocity p) - 40 * 0.1) * 0.1 \<le> - 95"
    by linarith
  have "movePlayer 0.1 inp bs p
     = p\<lparr>velocity := (velocity p)\<lparr>xv := 0, yv := yv (velocity p) - 40 * 0.1\<rparr>,
         position := (position p)\<lparr>yv := yv (position p) + (yv (velocity p) - 40 * 0.1) * 0.1\<rparr>\<rparr>"
  proof (rule miss_step [OF fl r vx])
    show "\<not> (\<lfloor>yv (position p) - 0.4\<rfloor> \<le> 0 \<and> 0 \<le> \<lfloor>yv (position p) + 0.4\<rfloor>)"
      using y by auto
    show "\<not> (\<lfloor>yv (position p) + (yv (velocity p) - 40 * 0.1) * 0.1 - 0.4\<rfloor> \<le> 0
        \<and> 0 \<le> \<lfloor>yv (position p) + (yv (velocity p) - 40 * 0.1) * 0.1 + 0.4\<rfloor>)"
      using y' by simp
  qed
  then show ?thesis using y' vy by simp
qed

lemma dive_iter:
  assumes fl: "flatFloor lo hi bs" and r: "input_r inp = 0"
    and vx: "xv (velocity p) = 0" and vy: "yv (velocity p) \<le> - 1000"
    and y: "yv (position p) = 5"
  shows "xv (velocity ((movePlayer 0.1 inp bs ^^ Suc m) p)) = 0
    \<and> yv (velocity ((movePlayer 0.1 inp bs ^^ Suc m) p)) \<le> - 1000
    \<and> yv (position ((movePlayer 0.1 inp bs ^^ Suc m) p)) \<le> - 95
    \<and> onGround ((movePlayer 0.1 inp bs ^^ Suc m) p) = onGround p"
proof (induction m)
  case 0
  show ?case using dive_step [OF fl r vx vy] y by simp
next
  case (Suc m)
  let ?q = "(movePlayer 0.1 inp bs ^^ Suc m) p"
  from Suc.IH have q: "xv (velocity ?q) = 0" "yv (velocity ?q) \<le> - 1000"
    "yv (position ?q) = 5 \<or> yv (position ?q) \<le> - 95" "onGround ?q = onGround p"
    by simp_all
  from dive_step [OF fl r q(1,2,3)] q(4) show ?case by simp
qed

lemma updatePhysics_player_iter:
  "player ((updatePhysics dt ^^ m) s) = (movePlayer dt (input s) (blocks s) ^^ m) (player s)
   \<and> input ((updatePhysics dt ^^ m) s) = input s
   \<and> blocks ((updatePhysics dt ^^ m) s) = blocks s"
  by (induction m) (simp_all add: updatePhysics_frame)

lemma diving_hyps:
  "flatFloor (- 1) 0 (blocks diving)"
  "- 1 \<le> \<lfloor>xv (position (player diving)) - 0.35\<rfloor>"
  "\<lfloor>xv (position (player diving)) + 0.35\<rfloor> \<le> 0"
  "yv (position (player diving)) = 5"
  "xv (velocity (player diving)) = 0" "yv (velocity (player diving)) = - 1000"
  "input_r (input diving) = 0" "\<not> onGround (player diving)"
  by (simp_all add: diving_def dropped_def blank_def fresh_def flatFloor_floorGrid)

lemma diving_never_lands:
  "yv (position (player ((updatePhysics 0.1 ^^ Suc m) diving))) < - 10
   \<and> \<not> onGround (player ((updatePhysics 0.1 ^^ Suc m) diving))"
proof -
  note h = diving_hyps
  have "yv (velocity (player diving)) \<le> - 1000" using h(6) by simp
  from dive_iter [OF h(1) h(7) h(5) this h(4), of m] h(8)
  have "yv (position ((movePlayer 0.1 (input diving) (blocks diving) ^^ Suc m) (player diving)))
      \<le> - 95"
    and "\<not> onGround ((movePlayer 0.1 (input diving) (blocks diving) ^^ Suc m) (player diving))"
    by blast+
  moreover have "player ((updatePhysics 0.1 ^^ Suc m) diving)
      = (movePlayer 0.1 (input diving) (blocks diving) ^^ Suc m) (player diving)"
    using updatePhysics_player_iter [where dt = "0.1" and m = "Suc m" and s = diving] by blast
  ultimately show ?thesis by (simp del: funpow.simps)
qed

section \<open>The forward intent\<close>

lemma fold_commute:
  "(\<And>a s. f a (g s) = g (f a s)) \<Longrightarrow> fold f xs (g s) = g (fold f xs s)"
  by (induction xs arbitrary: s) simp_all

lemma createBlock_input:
  "createBlock x y z t (s\<lparr>input := i\<rparr>) = (createBlock x y z t s)\<lparr>input := i\<rparr>"
  by (simp add: createBlock_def hasBlock_def Let_def)

lemma fillColumn_input: "fillColumn w h (s\<lparr>input := i\<rparr>) = (fillColumn w h s)\<lparr>input := i\<rparr>"
  unfolding fillColumn_def by (rule fold_commute) (rule createBlock_input)

lemma random_input:
  "fst (random (s\<lparr>input := i\<rparr>)) = fst (random s)"
  "snd (random (s\<lparr>input := i\<rparr>)) = (snd (random s))\<lparr>input := i\<rparr>"
  by (simp_all add: random_def)

lemma fragileObstacle_input:
  "fragileObstacle x w h (s\<lparr>input := i\<rparr>) = (fragileObstacle x w h s)\<lparr>input := i\<rparr>"
  by (simp add: fragileObstacle_def Let_def split_beta random_input createBlock_input)

lemma stonePlatform_input:
  "stonePlatform w h (s\<lparr>input := i\<rparr>) = (stonePlatform w h s)\<lparr>input := i\<rparr>"
  by (simp add: stonePlatform_def Let_def split_beta random_input createBlock_input)

lemma generateColumn_input:
  "generateColumn off x (s\<lparr>input := i\<rparr>) = (generateColumn off x s)\<lparr>input := i\<rparr>"
  by (simp add: generateColumn_def Let_def fillColumn_input fragileObstacle_input
      stonePlatform_input)

lemma generateChunk_input:
  "generateChunk cx (s\<lparr>input := i\<rparr>) = (generateChunk cx s)\<lparr>input := i\<rparr>"
  unfolding generateChunk_def by (rule fold_commute) (rule generateColumn_input)

lemma ensureChunk_input:
  "ensureChunk cx (s\<lparr>input := i\<rparr>) = (ensureChunk cx s)\<lparr>input := i\<rparr>"
  by (simp add: ensureChunk_def Let_def generateChunk_input)

lemma updateChunks_input: "updateChunks (s\<lparr>input := i\<rparr>) = (updateChunks s)\<lparr>input := i\<rparr>"
proof -
  have "playerChunkX (s\<lparr>input := i\<rparr>) = playerChunkX s" by (simp add: playerChunkX_def)
  then show ?thesis
    unfolding updateChunks_def Let_def
    by (simp add: fold_commute [where g = "\<lambda>s. s\<lparr>input := i\<rparr>"] ensureChunk_input)
qed

lemma movePlayer_input_f: "movePlayer dt (inp\<lparr>input_f := v\<rparr>) bs pl = movePlayer dt inp bs pl"
proof -
  have "input_sprint (inp\<lparr>input_f := v\<rparr>) = input_sprint inp"
    "input_r (inp\<lparr>input_f := v\<rparr>) = input_r inp"
    by simp_all
  then show ?thesis unfolding movePlayer_def by (simp only:)
qed

lemma input_update_out:
  "(s\<lparr>input := i\<rparr>)\<lparr>active := v0\<rparr> = (s\<lparr>active := v0\<rparr>)\<lparr>input := i\<rparr>"
  "(s\<lparr>input := i\<rparr>)\<lparr>lastTime := v1\<rparr> = (s\<lparr>lastTime := v1\<rparr>)\<lparr>input := i\<rparr>"
  "(s\<lparr>input := i\<rparr>)\<lparr>particles := v4\<rparr> = (s\<lparr>particles := v4\<rparr>)\<lparr>input := i\<rparr>"
  "(s\<lparr>input := i\<rparr>)\<lparr>stats := v5\<rparr> = (s\<lparr>stats := v5\<rparr>)\<lparr>input := i\<rparr>"
  "(s\<lparr>input := i\<rparr>)\<lparr>player := v6\<rparr> = (s\<lparr>player := v6\<rparr>)\<lparr>input := i\<rparr>"
  "(s\<lparr>input := i\<rparr>)\<lparr>camera := v8\<rparr> = (s\<lparr>camera := v8\<rparr>)\<lparr>input := i\<rparr>"
  "(s\<lparr>input := i\<rparr>)\<lparr>frameRequested := v12\<rparr> = (s\<lparr>frameRequested := v12\<rparr>)\<lparr>input := i\<rparr>"
  "(s\<lparr>input := i\<rparr>)\<lparr>pointerLocked := v13\<rparr> = (s\<lparr>pointerLocked := v13\<rparr>)\<lparr>input := i\<rparr>"
  "(s\<lparr>input := i\<rparr>)\<lparr>deaths := v14\<rparr> = (s\<lparr>deaths := v14\<rparr>)\<lparr>input := i\<rparr>"
  "(s\<lparr>input := i\<rparr>)\<lparr>statsUpdates := v16\<rparr> = (s\<lparr>statsUpdates := v16\<rparr>)\<lparr>input := i\<rparr>"
  by simp_all

lemma updatePhysics_input_f:
  "input s = i \<Longrightarrow>
   updatePhysics dt (s\<lparr>input := i\<lparr>input_f := v\<rparr>\<rparr>)
     = (updatePhysics dt s)\<lparr>input := i\<lparr>input_f := v\<rparr>\<rparr>"
  by (auto simp add: updatePhysics_def Let_def movePlayer_input_f)

lemma animate_input_f:
  "animate now (s\<lparr>input := (input s)\<lparr>input_f := v\<rparr>\<rparr>)
     = (animate now s)\<lparr>input := (input s)\<lparr>input_f := v\<rparr>\<rparr>"
proof (cases "active s")
  case False
  then show ?thesis by (simp add: animate_def Let_def)
next
  case True
  then show ?thesis
    by (simp add: animate_def Let_def input_update_out updatePhysics_input_f updateChunks_input
        updateChunks_frame updatePhysics_frame)
qed

section \<open>The claims\<close>

text \<open>
  C1. If after both per-axis collision corrections of a physics step the player's
  \<open>position.y\<close> is below \<open>-10\<close>, the step clears the active flag and calls \<^verbatim>\<open>onDeath\<close>
  once; whatever events follow, as long as none of them is \<^verbatim>\<open>lock()\<close>, the session stays
  inactive, \<^verbatim>\<open>onDeath\<close> is not called again, and the player, the particles, the grid, the
  chunk ledger and the stats stay as they are. The same holds for the whole frame in which
  the step runs.
\<close>

theorem fall_death_ends_session:
  assumes "active s"
    and "yv (position (movePlayer dt (input s) (blocks s) (player s))) < - 10"
    and "\<forall>e\<in>set es. \<not> isLock e"
  shows "\<not> active (updatePhysics dt s) \<and> deaths (updatePhysics dt s) = Suc (deaths s)
    \<and> \<not> active (fold dispatch es (updatePhysics dt s))
    \<and> simState (fold dispatch es (updatePhysics dt s)) = simState (updatePhysics dt s)
    \<and> (dt = frameDelta now s \<longrightarrow>
         \<not> active (animate now s) \<and> deaths (animate now s) = Suc (deaths s)
         \<and> \<not> active (fold dispatch es (animate now s))
         \<and> simState (fold dispatch es (animate now s)) = simState (animate now s))"
proof -
  have a: "\<not> active (updatePhysics dt s)" "deaths (updatePhysics dt s) = Suc (deaths s)"
    using assms(2) by (simp_all add: updatePhysics_def Let_def)
  have b: "\<not> active (animate now s)" "deaths (animate now s) = Suc (deaths s)"
    if "dt = frameDelta now s"
    using assms(1,2) that
    by (simp_all add: animate_active_fields updatePhysics_def Let_def)
  show ?thesis
    using a b fold_dispatch_inactive [OF a(1) assms(3)]
      fold_dispatch_inactive [OF _ assms(3), of "animate now s"]
    by blast
qed

text \<open>
  The witness of C1: the player falls from \<open>y = -9.9\<close> on an empty grid in a frame of a
  tenth of a second, and a frame, a jump, a click, a mouse move, an unlock and a disposal
  follow.
\<close>

theorem fall_death_ends_session_witness:
  "active falling
   \<and> yv (position (movePlayer 0.1 (input falling) (blocks falling) (player falling))) < - 10
   \<and> \<not> active (updatePhysics 0.1 falling) \<and> deaths (updatePhysics 0.1 falling) = Suc (deaths falling)
   \<and> \<not> active (animate 100 falling) \<and> deaths (animate 100 falling) = Suc (deaths falling)
   \<and> \<not> active (fold dispatch
          [Frame 200, KeyDown Space, MouseDown None, MouseMove 1 1 800 600, Unlock, Dispose]
          (animate 100 falling))
   \<and> simState (fold dispatch
          [Frame 200, KeyDown Space, MouseDown None, MouseMove 1 1 800 600, Unlock, Dispose]
          (animate 100 falling)) = simState (animate 100 falling)"
proof -
  have h1: "active falling" by (simp add: falling_def)
  have h2: "yv (position (movePlayer 0.1 (input falling) (blocks falling) (player falling))) < - 10"
    by (simp add: falling_def blank_def fresh_def movePlayer_def checkCollision_empty
        Let_def config_defs)
  have h3: "\<forall>e\<in>set [Frame 200, KeyDown Space, MouseDown None, MouseMove 1 1 800 600, Unlock,
      Dispose]. \<not> isLock e"
    by simp
  have h4: "0.1 = frameDelta 100 falling"
    by (simp add: frameDelta_def falling_def blank_def fresh_def)
  from fall_death_ends_session [OF h1 h2 h3, of 100] h1 h2 h3 h4 show ?thesis by blast
qed

text \<open>
  C2, as the claim states it, fails. On a floor of two blocks under a player at rest at
  height 5, stepped with \<open>dt = 0.1\<close>, the player is on the floor after four steps, at
  \<open>y = 0.9\<close>, and \<open>position.y\<close> is never 0.5. And zero horizontal velocity is not
  enough: with a vertical velocity of \<open>-1000\<close> at the start the player is below \<open>-10\<close>
  from the first step on and never on the ground.
\<close>

theorem player_never_at_half:
  "yv (position (player ((updatePhysics 0.1 ^^ 4) dropped))) = 0.9
   \<and> onGround (player ((updatePhysics 0.1 ^^ 4) dropped))
   \<and> \<not> (\<exists>m. yv (position (player ((updatePhysics 0.1 ^^ m) dropped))) = 0.5)
   \<and> flatFloor (- 1) 0 (blocks diving)
   \<and> yv (position (player diving)) = 5
   \<and> xv (velocity (player diving)) = 0
   \<and> input_r (input diving) = 0
   \<and> (\<forall>m. yv (position (player ((updatePhysics 0.1 ^^ Suc m) diving))) < - 10
            \<and> \<not> onGround (player ((updatePhysics 0.1 ^^ Suc m) diving)))"
proof -
  note h = dropped_hyps
  have above: "\<forall>j\<le>3. 1.4 \<le> yv (position (player dropped))
      - 20 * 0.1 * 0.1 * real j * (real j + 1)"
  proof (intro allI impI)
    fix j :: nat
    assume "j \<le> 3"
    then consider "j = 0" | "j = 1" | "j = 2" | "j = 3" by linarith
    then show "1.4 \<le> yv (position (player dropped)) - 20 * 0.1 * 0.1 * real j * (real j + 1)"
      by cases (simp_all add: h(4))
  qed
  have "(movePlayer 0.1 (input dropped) (blocks dropped) ^^ Suc 3) (player dropped)
      = groundState (player dropped) (xv (position (player dropped)))"
    by (rule land_iter [OF h(1) h(7) h(5) h(6) h(2) h(3) _ above]) (simp_all add: h(4))
  moreover have alive: "\<forall>m. \<not> yv (position ((movePlayer 0.1 (input dropped) (blocks dropped) ^^ m)
      (player dropped))) < - 10"
  proof
    fix m
    have "0.9 \<le> yv (position ((movePlayer 0.1 (input dropped) (blocks dropped) ^^ m)
      (player dropped)))"
      using settle_player(1) [OF h(1) h(7) h(5) h(6) h(2) h(3) h(4), of "0.1"] by simp
    then show "\<not> yv (position ((movePlayer 0.1 (input dropped) (blocks dropped) ^^ m)
      (player dropped))) < - 10"
      by simp
  qed
  ultimately have 4: "player ((updatePhysics 0.1 ^^ 4) dropped)
      = groundState (player dropped) (xv (position (player dropped)))"
    using updatePhysics_iter [OF alive, of 4] by (simp add: numeral_eq_Suc)
  have never: "\<not> (\<exists>m. yv (position (player ((updatePhysics 0.1 ^^ m) dropped))) = 0.5)"
  proof
    assume "\<exists>m. yv (position (player ((updatePhysics 0.1 ^^ m) dropped))) = 0.5"
    then obtain m where "yv (position (player ((updatePhysics 0.1 ^^ m) dropped))) = 0.5" ..
    moreover have "0.9 \<le> yv (position (player ((updatePhysics 0.1 ^^ m) dropped)))"
      using settle_engine(1) [OF h, of "0.1"] by simp
    ultimately show False by simp
  qed
  have dive: "\<forall>m. yv (position (player ((updatePhysics 0.1 ^^ Suc m) diving))) < - 10
            \<and> \<not> onGround (player ((updatePhysics 0.1 ^^ Suc m) diving))"
    using diving_never_lands by blast
  have 1: "yv (position (player ((updatePhysics 0.1 ^^ 4) dropped))) = 0.9
      \<and> onGround (player ((updatePhysics 0.1 ^^ 4) dropped))"
    by (simp add: 4 groundState_def)
  show ?thesis using 1 never dive diving_hyps(1,4,5,7) by blast
qed

text \<open>
  C2, amended. For a grid that is a flat single-layer floor of blocks at \<open>y = 0\<close> over the
  columns \<open>lo\<close> to \<open>hi\<close>, spanning the columns the player overlaps, a player at rest at
  \<open>position.y = 5\<close> with zero lateral intent, stepped repeatedly with any fixed \<open>dt\<close> from
  a thousandth to a tenth of a second, from some step on stays in a fixed point of the
  physics step in which \<open>position.y\<close> is 0.9 (the top face of the block plus half the
  player's height) and \<open>onGround\<close> is true.
\<close>

theorem player_settles_on_floor:
  fixes dt :: real
  assumes "flatFloor lo hi (blocks s)"
    and "lo \<le> \<lfloor>xv (position (player s)) - 0.35\<rfloor>"
    and "\<lfloor>xv (position (player s)) + 0.35\<rfloor> \<le> hi"
    and "yv (position (player s)) = 5"
    and "xv (velocity (player s)) = 0" and "yv (velocity (player s)) = 0"
    and "input_r (input s) = 0"
    and "0.001 \<le> dt" and "dt \<le> 0.1"
  shows "\<exists>n. \<forall>m\<ge>n. yv (position (player ((updatePhysics dt ^^ m) s))) = 0.9
           \<and> onGround (player ((updatePhysics dt ^^ m) s))
           \<and> updatePhysics dt ((updatePhysics dt ^^ m) s) = (updatePhysics dt ^^ m) s"
proof -
  from assms(8) have "0 < dt" by simp
  from settle_engine(2) [OF assms(1-7) this assms(9)] show ?thesis .
qed

text \<open>
  The witness of C2: the floor of two blocks under the player of the state \<open>dropped\<close>,
  with \<open>dt = 0.1\<close>.
\<close>

theorem player_settles_on_floor_witness:
  "flatFloor (- 1) 0 (blocks dropped)
   \<and> - 1 \<le> \<lfloor>xv (position (player dropped)) - 0.35\<rfloor>
   \<and> \<lfloor>xv (position (player dropped)) + 0.35\<rfloor> \<le> 0
   \<and> yv (position (player dropped)) = 5
   \<and> xv (velocity (player dropped)) = 0 \<and> yv (velocity (player dropped)) = 0
   \<and> input_r (input dropped) = 0
   \<and> (\<exists>n. \<forall>m\<ge>n. yv (position (player ((updatePhysics 0.1 ^^ m) dropped))) = 0.9
           \<and> onGround (player ((updatePhysics 0.1 ^^ m) dropped))
           \<and> updatePhysics 0.1 ((updatePhysics 0.1 ^^ m) dropped)
               = (updatePhysics 0.1 ^^ m) dropped)"
proof -
  have "\<exists>n. \<forall>m\<ge>n. yv (position (player ((updatePhysics 0.1 ^^ m) dropped))) = 0.9
           \<and> onGround (player ((updatePhysics 0.1 ^^ m) dropped))
           \<and> updatePhysics 0.1 ((updatePhysics 0.1 ^^ m) dropped)
               = (updatePhysics 0.1 ^^ m) dropped"
    using player_settles_on_floor [OF dropped_hyps, of "0.1"] by simp
  then show ?thesis using dropped_hyps by blast
qed

text \<open>
  C3. In an active session, a jump trigger on the ground sets \<open>velocity.y\<close> to
  \<open>JUMP_FORCE\<close>, clears \<open>onGround\<close> and sets \<open>canDoubleJump\<close>, and changes nothing else; in
  the air with \<open>canDoubleJump\<close> it sets \<open>velocity.y\<close> to \<open>JUMP_FORCE * 0.8\<close>, clears
  \<open>canDoubleJump\<close> and appends five white particles of life 1 at the player position
  (drawing fifteen random numbers); in the air without \<open>canDoubleJump\<close> it changes nothing;
  in an inactive session it changes nothing.
\<close>

theorem handleJump_state_machine:
  "(active s \<and> onGround (player s) \<longrightarrow>
      handleJump s =
        s\<lparr>player := (player s)\<lparr>velocity := (velocity (player s))\<lparr>yv := JUMP_FORCE\<rparr>,
                                onGround := False, canDoubleJump := True\<rparr>\<rparr>)
   \<and> (active s \<and> \<not> onGround (player s) \<and> canDoubleJump (player s) \<longrightarrow>
      (\<exists>ps. length ps = 5
         \<and> (\<forall>p\<in>set ps. ppos p = position (player s) \<and> pcolor p = 0xffffff \<and> life p = 1)
         \<and> handleJump s =
             s\<lparr>player := (player s)\<lparr>velocity := (velocity (player s))\<lparr>yv := JUMP_FORCE * 0.8\<rparr>,
                                     canDoubleJump := False\<rparr>,
               particles := particles s @ ps, rndPos := rndPos s + 15\<rparr>))
   \<and> (active s \<and> \<not> onGround (player s) \<and> \<not> canDoubleJump (player s) \<longrightarrow> handleJump s = s)
   \<and> (\<not> active s \<longrightarrow> handleJump s = s)"
proof -
  let ?s = "s\<lparr>player := (player s)\<lparr>velocity := (velocity (player s))\<lparr>yv := JUMP_FORCE * 0.8\<rparr>,
                                     canDoubleJump := False\<rparr>\<rparr>"
  obtain ps where ps: "length ps = 5"
    "\<forall>p\<in>set ps. ppos p = position (player s) \<and> pcolor p = 0xffffff \<and> life p = 1"
    "spawnParticles (position (player s)) 5 0xffffff ?s
       = ?s\<lparr>particles := particles ?s @ ps, rndPos := rndPos ?s + 3 * 5\<rparr>"
    using spawnParticles_eq [of 5 "position (player s)" "0xffffff" ?s] by blast
  have "active s \<and> \<not> onGround (player s) \<and> canDoubleJump (player s) \<longrightarrow>
      (\<exists>ps. length ps = 5
         \<and> (\<forall>p\<in>set ps. ppos p = position (player s) \<and> pcolor p = 0xffffff \<and> life p = 1)
         \<and> handleJump s =
             s\<lparr>player := (player s)\<lparr>velocity := (velocity (player s))\<lparr>yv := JUMP_FORCE * 0.8\<rparr>,
                                     canDoubleJump := False\<rparr>,
               particles := particles s @ ps, rndPos := rndPos s + 15\<rparr>)"
    using ps by (auto simp: handleJump_def intro!: exI [of _ ps])
  then show ?thesis by (simp add: handleJump_def)
qed

text \<open>
  The witness of C3: a jump on the ground, the double jump that follows it, a third
  trigger, and a trigger before the session starts.
\<close>

theorem handleJump_state_machine_witness:
  "active grounded \<and> onGround (player grounded)
   \<and> yv (velocity (player (handleJump grounded))) = 16
   \<and> \<not> onGround (player (handleJump grounded))
   \<and> canDoubleJump (player (handleJump grounded))
   \<and> active airborne \<and> \<not> onGround (player airborne) \<and> canDoubleJump (player airborne)
   \<and> yv (velocity (player (handleJump airborne))) = 12.8
   \<and> \<not> canDoubleJump (player (handleJump airborne))
   \<and> length (particles (handleJump airborne)) = 5
   \<and> handleJump (handleJump (handleJump grounded)) = handleJump (handleJump grounded)
   \<and> \<not> active blank \<and> handleJump blank = blank"
proof -
  have g: "active grounded \<and> onGround (player grounded)"
    by (simp add: grounded_def)
  have a: "active airborne \<and> \<not> onGround (player airborne) \<and> canDoubleJump (player airborne)"
    by (simp add: airborne_def)
  have b: "\<not> active blank" by (simp add: blank_def fresh_def)
  have ga: "handleJump grounded = airborne\<lparr>player := (player airborne)\<lparr>velocity :=
      (velocity (player airborne))\<lparr>yv := JUMP_FORCE\<rparr>\<rparr>\<rparr>"
    using handleJump_state_machine [of grounded] g by (simp add: grounded_def airborne_def)
  let ?a = "handleJump grounded"
  have a': "active ?a \<and> \<not> onGround (player ?a) \<and> canDoubleJump (player ?a)"
    unfolding ga by (simp add: airborne_def)
  let ?c = "handleJump ?a"
  from handleJump_state_machine [of ?a] a'
  have c: "active ?c \<and> \<not> onGround (player ?c) \<and> \<not> canDoubleJump (player ?c)" by auto
  from handleJump_state_machine [of airborne] a obtain ps where ps: "length ps = 5"
    "handleJump airborne =
       airborne\<lparr>player := (player airborne)\<lparr>velocity :=
                   (velocity (player airborne))\<lparr>yv := JUMP_FORCE * 0.8\<rparr>,
                   canDoubleJump := False\<rparr>,
                particles := particles airborne @ ps, rndPos := rndPos airborne + 15\<rparr>"
    by blast
  have pa: "particles airborne = []" by (simp add: airborne_def blank_def fresh_def)
  show ?thesis
    using g a b c ga ps pa handleJump_state_machine [of ?c] handleJump_state_machine [of blank]
    by (simp add: config_defs)
qed



text \<open>
  C5. \<^verbatim>\<open>updateChunks\<close> is the run of \<^verbatim>\<open>generateChunk\<close>, each followed by the marking of
  its index, over exactly the chunk indices of the window from \<open>playerChunkX - 1\<close> to
  \<open>playerChunkX + VIEW_DISTANCE\<close> that are not in the ledger, in increasing order.
  Afterwards the ledger holds the whole window, and every terrain cell of every chunk
  that was missing holds a block. A second call changes nothing at all, so it generates no
  chunk and adds no block.
\<close>

theorem updateChunks_window_idempotent:
  "updateChunks s
     = fold (\<lambda>cx t. (generateChunk cx t)
                \<lparr>chunksGenerated := insert cx (chunksGenerated (generateChunk cx t))\<rparr>)
         (filter (\<lambda>cx. cx \<notin> chunksGenerated s) (window s)) s
   \<and> chunksGenerated (updateChunks s) = chunksGenerated s \<union> set (window s)
   \<and> set (window s) = {playerChunkX s - 1..playerChunkX s + VIEW_DISTANCE}
   \<and> (\<forall>cx x y. cx \<in> set (window s) \<and> cx \<notin> chunksGenerated s
          \<and> 0 \<le> x \<and> x < CHUNK_SIZE
          \<and> - 4 \<le> y \<and> y \<le> terrainHeight (platform s) (cx * CHUNK_SIZE + x)
        \<longrightarrow> hasBlock (cx * CHUNK_SIZE + x, y, 0) (updateChunks s))
   \<and> updateChunks (updateChunks s) = updateChunks s"
proof -
  have d: "distinct (window s)" by (simp add: window_def)
  have 1: "updateChunks s
      = fold (\<lambda>cx t. (generateChunk cx t)
                \<lparr>chunksGenerated := insert cx (chunksGenerated (generateChunk cx t))\<rparr>)
          (filter (\<lambda>cx. cx \<notin> chunksGenerated s) (window s)) s"
    by (simp only: updateChunks_alt fold_ensureChunk [OF d])
  have 2: "chunksGenerated (updateChunks s) = chunksGenerated s \<union> set (window s)"
    by (simp only: updateChunks_alt chunksGenerated_fold_ensureChunk)
  have w: "window (updateChunks s) = window s"
    by (simp add: window_def playerChunkX_def updateChunks_frame)
  have "filter (\<lambda>cx. cx \<notin> chunksGenerated (updateChunks s)) (window s) = []"
    unfolding 2 by (simp add: filter_empty_conv)
  then have 3: "updateChunks (updateChunks s) = updateChunks s"
    using fold_ensureChunk [OF d, of "updateChunks s"]
    by (simp add: updateChunks_alt [of "updateChunks s"] w)
  have 4: "hasBlock (cx * CHUNK_SIZE + x, y, 0) (updateChunks s)"
    if "cx \<in> set (window s)" "cx \<notin> chunksGenerated s" "0 \<le> x" "x < CHUNK_SIZE"
      "- 4 \<le> y" "y \<le> terrainHeight (platform s) (cx * CHUNK_SIZE + x)" for cx x y
    unfolding hasBlock_def updateChunks_alt
    by (rule fold_ensureChunk_cells [OF that(3,4,5,1,2,6)])
  have 5: "set (window s) = {playerChunkX s - 1..playerChunkX s + VIEW_DISTANCE}"
    by (simp add: window_def)
  show ?thesis using 1 2 3 4 5 by blast
qed

text \<open>
  The witness of C5: the player of the new engine \<open>blank\<close> is in chunk 0 and the ledger
  is empty; \<^verbatim>\<open>updateChunks\<close> generates the chunks from \<open>-1\<close> to 4, and the column of
  \<open>worldX = 0\<close>, of height 1, holds a block at \<open>y = 1\<close>.
\<close>

theorem updateChunks_window_idempotent_witness:
  "(0::int) \<in> set (window blank) \<and> 0 \<notin> chunksGenerated blank
   \<and> 1 \<le> terrainHeight (platform blank) (0 * CHUNK_SIZE + 0)
   \<and> hasBlock (0, 1, 0) (updateChunks blank)
   \<and> \<not> hasBlock (0, 1, 0) blank
   \<and> chunksGenerated (updateChunks blank) = {- 1..4}
   \<and> updateChunks (updateChunks blank) = updateChunks blank"
proof -
  have w: "window blank = [- 1..4]"
    by (simp add: window_def playerChunkX_def blank_def fresh_def config_defs)
  have g: "chunksGenerated blank = {}" "\<not> hasBlock (0, 1, 0) blank"
    by (simp_all add: blank_def fresh_def hasBlock_def)
  have h: "terrainHeight (platform blank) (0 * CHUNK_SIZE + 0) = 1"
    by (simp add: platform_blank terrainHeight_0)
  note t = updateChunks_window_idempotent [of blank]
  from t have cells: "\<forall>cx x y. cx \<in> set (window blank) \<and> cx \<notin> chunksGenerated blank
          \<and> 0 \<le> x \<and> x < CHUNK_SIZE
          \<and> - 4 \<le> y \<and> y \<le> terrainHeight (platform blank) (cx * CHUNK_SIZE + x)
        \<longrightarrow> hasBlock (cx * CHUNK_SIZE + x, y, 0) (updateChunks blank)"
    by blast
  from t have led: "chunksGenerated (updateChunks blank)
      = chunksGenerated blank \<union> set (window blank)"
    by blast
  from t have idem: "updateChunks (updateChunks blank) = updateChunks blank" by blast
  have m: "(0::int) \<in> set (window blank)" "(0::int) < CHUNK_SIZE"
    by (simp_all add: w CHUNK_SIZE_def)
  have "hasBlock (0 * CHUNK_SIZE + 0, 1, 0) (updateChunks blank)"
    using cells [rule_format, where cx = 0 and x = 0 and y = 1] m g(1) h by simp
  then have c: "hasBlock (0, 1, 0) (updateChunks blank)" by simp
  have l: "chunksGenerated (updateChunks blank) = {- 1..4}"
    unfolding led by (simp add: w g(1))
  show ?thesis using m(1) g h c l idem by simp
qed

text \<open>
  C6. For every chunk index \<open>cx\<close> and local column \<open>x\<close> from 0 to \<open>CHUNK_SIZE - 1\<close>, with
  \<open>worldX = cx * CHUNK_SIZE + x\<close>: the terrain height is
  \<open>floor (sin (worldX * 0.1) * 2) + floor (cos (worldX * 0.5) * 1)\<close>, computed with the
  sine, the cosine and the multiplication of the platform, and at least \<open>-2\<close>; after
  \<^verbatim>\<open>generateChunk\<close> every cell of the column from \<open>y = -4\<close> up to the height holds a block;
  and such a cell holds grass at the height and dirt below it, if it was free before and
  the column is the first of the chunk or is less than four higher than the column to its
  left (whose stone platform, four above its height, is placed first). Without rounding
  no column is four higher than the column to its left.
\<close>

theorem generateChunk_terrain:
  assumes "0 \<le> x" and "x < CHUNK_SIZE" and "- 4 \<le> y"
    and "y \<le> terrainHeight (platform s) (cx * CHUNK_SIZE + x)"
  shows "hasBlock (cx * CHUNK_SIZE + x, y, 0) (generateChunk cx s)
    \<and> (\<not> hasBlock (cx * CHUNK_SIZE + x, y, 0) s
        \<and> (x = 0 \<or> terrainHeight (platform s) (cx * CHUNK_SIZE + x)
                      < terrainHeight (platform s) (cx * CHUNK_SIZE + x - 1) + 4) \<longrightarrow>
         blocks (generateChunk cx s) (cx * CHUNK_SIZE + x, y, 0)
           = Some \<lparr>btype = (if y = terrainHeight (platform s) (cx * CHUNK_SIZE + x) then Grass
                             else Dirt),
                   bkey = (cx * CHUNK_SIZE + x, y, 0)\<rparr>)
    \<and> terrainHeight (platform s) (cx * CHUNK_SIZE + x)
        = max (- 2)
            (\<lfloor>fmul (platform s) (Math_sin (platform s)
                 (fmul (platform s) (real_of_int (cx * CHUNK_SIZE + x)) 0.1)) 2\<rfloor>
             + \<lfloor>fmul (platform s) (Math_cos (platform s)
                 (fmul (platform s) (real_of_int (cx * CHUNK_SIZE + x)) 0.5)) 1\<rfloor>)
    \<and> (platform s = exactMath \<longrightarrow>
         terrainHeight (platform s) (cx * CHUNK_SIZE + x)
           < terrainHeight (platform s) (cx * CHUNK_SIZE + x - 1) + 4)"
proof -
  let ?w = "cx * CHUNK_SIZE + x"
  let ?h = "terrainHeight (platform s)"
  have 1: "hasBlock (?w, y, 0) (generateChunk cx s)"
    unfolding hasBlock_def by (rule generateChunk_cells(1) [OF assms])
  have 2: "blocks (generateChunk cx s) (?w, y, 0)
           = Some \<lparr>btype = (if y = ?h ?w then Grass else Dirt), bkey = (?w, y, 0)\<rparr>"
    if "\<not> hasBlock (?w, y, 0) s" "x = 0 \<or> ?h ?w < ?h (?w - 1) + 4"
  proof (rule generateChunk_cells(2) [OF assms])
    show "blocks s (?w, y, 0) = None" using that(1) by (simp add: hasBlock_def)
    show "x = 0 \<or> y \<noteq> ?h (?w - 1) + 4" using that(2) assms(4) by auto
  qed
  have 3: "?h ?w
      = max (- 2)
          (\<lfloor>fmul (platform s) (Math_sin (platform s)
               (fmul (platform s) (real_of_int ?w) 0.1)) 2\<rfloor>
           + \<lfloor>fmul (platform s) (Math_cos (platform s)
               (fmul (platform s) (real_of_int ?w) 0.5)) 1\<rfloor>)"
    by (simp add: terrainHeight_def Let_def max_def)
  have 4: "?h ?w < ?h (?w - 1) + 4" if "platform s = exactMath"
    using terrainHeight_step [of "?w - 1"] that by simp
  show ?thesis using 1 2 3 4 by blast
qed

text \<open>
  The witness of C6: chunk 0 generated on the empty grid of \<open>blank\<close>, without rounding:
  in the column of \<open>worldX = 0\<close>, of height 1, grass at \<open>y = 1\<close> and dirt at \<open>y = -4\<close>, and
  dirt at \<open>y = -4\<close> in the column of \<open>worldX = 1\<close>.
\<close>

theorem generateChunk_terrain_witness:
  "(0::int) \<le> 1 \<and> 1 < CHUNK_SIZE \<and> - 4 \<le> terrainHeight (platform blank) (0 * CHUNK_SIZE + 1)
   \<and> terrainHeight (platform blank) (0 * CHUNK_SIZE + 0) = 1
   \<and> \<not> hasBlock (0, 1, 0) blank \<and> \<not> hasBlock (0, - 4, 0) blank \<and> \<not> hasBlock (1, - 4, 0) blank
   \<and> hasBlock (0, 1, 0) (generateChunk 0 blank)
   \<and> blocks (generateChunk 0 blank) (0, 1, 0) = Some \<lparr>btype = Grass, bkey = (0, 1, 0)\<rparr>
   \<and> blocks (generateChunk 0 blank) (0, - 4, 0) = Some \<lparr>btype = Dirt, bkey = (0, - 4, 0)\<rparr>
   \<and> blocks (generateChunk 0 blank) (1, - 4, 0) = Some \<lparr>btype = Dirt, bkey = (1, - 4, 0)\<rparr>"
proof -
  have h0: "terrainHeight (platform blank) (0 * CHUNK_SIZE + 0) = 1"
    by (simp add: platform_blank terrainHeight_0)
  have h1: "- 2 \<le> terrainHeight (platform blank) (0 * CHUNK_SIZE + 1)"
    by (simp add: terrainHeight_def Let_def)
  have f: "\<not> hasBlock (0, 1, 0) blank" "\<not> hasBlock (0, - 4, 0) blank"
    "\<not> hasBlock (1, - 4, 0) blank"
    by (simp_all add: hasBlock_def blank_def fresh_def)
  have c: "(0::int) \<le> 1" "1 < CHUNK_SIZE" by (simp_all add: CHUNK_SIZE_def)
  from generateChunk_terrain [where x = 0 and y = 1 and cx = 0 and s = blank] h0 f
  have a: "hasBlock (0, 1, 0) (generateChunk 0 blank)"
    "blocks (generateChunk 0 blank) (0, 1, 0) = Some \<lparr>btype = Grass, bkey = (0, 1, 0)\<rparr>"
    by (simp_all add: CHUNK_SIZE_def)
  from generateChunk_terrain [where x = 0 and y = "- 4" and cx = 0 and s = blank] h0 f
  have b: "blocks (generateChunk 0 blank) (0, - 4, 0) = Some \<lparr>btype = Dirt, bkey = (0, - 4, 0)\<rparr>"
    by (simp add: CHUNK_SIZE_def)
  from generateChunk_terrain [where x = 1 and y = "- 4" and cx = 0 and s = blank] h1 f platform_blank
  have d: "blocks (generateChunk 0 blank) (1, - 4, 0) = Some \<lparr>btype = Dirt, bkey = (1, - 4, 0)\<rparr>"
    by (auto simp add: CHUNK_SIZE_def)
  show ?thesis using h0 h1 f c a b d by simp
qed

text \<open>
  C7. A particle of life 1 ticked twice with \<open>dt = 0.6\<close> is out of the live set after the
  second tick, every tick taking \<open>2 * dt\<close> from the life and a particle whose life is then
  at most 0 being removed. (The first tick already takes the life to \<open>-0.2\<close>, so the
  particle is removed by it and the second tick finds none.)
\<close>

theorem particle_removed_after_two_ticks:
  "tickParticles 0.6 (tickParticles 0.6 [p\<lparr>life := 1\<rparr>]) = []
   \<and> tickParticles 0.6 [p\<lparr>life := 1\<rparr>] = []
   \<and> life (ageParticle dt q) = life q - 2 * dt
   \<and> tickParticles dt [q] = (if life (ageParticle dt q) \<le> 0 then [] else [ageParticle dt q])"
  by (simp add: tickParticles_def ageParticle_def Let_def)

text \<open>
  C8 fails on the code. An engine is built, the session started and the engine disposed
  of: the frame loop is cancelled and the resize listener removed, but the key, mouse and
  unlock listeners stay registered, and a mouse move and a key press after the disposal
  still change the look accumulator and the input.
\<close>

theorem dispose_keeps_input_listeners:
  "(let s = dispatch Dispose (dispatch (Lock 0) (init pf (\<lambda>n. 0) 0)) in
     listeners s = {OnKeyDown, OnKeyUp, OnMouseDown, OnMouseMove, OnUnlock}
     \<and> \<not> frameRequested s
     \<and> mouse s = \<lparr>mx = 0, my = 0\<rparr>
     \<and> mouse (dispatch (MouseMove 3 4 800 600) s) = \<lparr>mx = 3, my = 4\<rparr>
     \<and> \<not> input_sprint (input s)
     \<and> input_sprint (input (dispatch (KeyDown ShiftLeft) s)))"
  by (auto simp add: Let_def init_fields dispose_def lock_def onMouseMove_def)

text \<open>
  C9. Collision resolution, the physics step and the whole frame keep a set \<open>onGround\<close>
  flag set. Of all events, only a pressed space key in an active session (a jump trigger
  on the ground) clears it. So after a physics step that started with the flag set and
  left the session active, wherever the player now is, a jump trigger is the full jump of
  the ground: \<open>velocity.y = JUMP_FORCE\<close>, the flag cleared, \<open>canDoubleJump\<close> set.
\<close>

theorem onGround_cleared_only_by_jump:
  "(onGround pl \<longrightarrow> onGround (checkCollision ax bs pl) \<and> onGround (movePlayer dt inp bs pl))
   \<and> (onGround (player s) \<longrightarrow>
        onGround (player (updatePhysics dt s)) \<and> onGround (player (animate now s)))
   \<and> (onGround (player s) \<and> \<not> onGround (player (dispatch e s)) \<longrightarrow>
        e = KeyDown Space \<and> active s \<and> OnKeyDown \<in> listeners s)
   \<and> (onGround (player s) \<and> active (updatePhysics dt s) \<longrightarrow>
        player (handleJump (updatePhysics dt s)) =
          (player (updatePhysics dt s))
            \<lparr>velocity := (velocity (player (updatePhysics dt s)))\<lparr>yv := JUMP_FORCE\<rparr>,
             onGround := False, canDoubleJump := True\<rparr>)"
  using checkCollision_onGround movePlayer_onGround updatePhysics_onGround animate_onGround
    dispatch_onGround
  by (auto simp: handleJump_def)

text \<open>
  The witness of C9: with no block anywhere, the player of the state \<open>grounded\<close> falls
  from \<open>y = 5\<close> to \<open>y = 4.6\<close> in a step of a tenth of a second, the flag stays set, and the
  jump that follows is a full jump; the pressed space key clears the flag.
\<close>

theorem onGround_cleared_only_by_jump_witness:
  "onGround (player grounded)
   \<and> blocks grounded = Map.empty
   \<and> yv (position (player (updatePhysics 0.1 grounded))) = 4.6
   \<and> onGround (player (updatePhysics 0.1 grounded))
   \<and> active (updatePhysics 0.1 grounded)
   \<and> yv (velocity (player (handleJump (updatePhysics 0.1 grounded)))) = JUMP_FORCE
   \<and> onGround (player (setupInputs grounded))
   \<and> \<not> onGround (player (dispatch (KeyDown Space) (setupInputs grounded)))"
proof -
  have m: "movePlayer 0.1 (input grounded) (blocks grounded) (player grounded)
      = \<lparr>position = \<lparr>xv = 0, yv = 4.6, zv = 0\<rparr>, velocity = \<lparr>xv = 0, yv = - 4, zv = 0\<rparr>,
         onGround = True, canDoubleJump = False\<rparr>"
    by (simp add: grounded_def blank_def fresh_def movePlayer_def checkCollision_empty
        Let_def config_defs)
  have u: "updatePhysics 0.1 grounded
      = grounded\<lparr>player := \<lparr>position = \<lparr>xv = 0, yv = 4.6, zv = 0\<rparr>,
                            velocity = \<lparr>xv = 0, yv = - 4, zv = 0\<rparr>,
                            onGround = True, canDoubleJump = False\<rparr>\<rparr>"
    by (simp add: updatePhysics_def Let_def m)
  have g: "onGround (player grounded)" "active grounded" "blocks grounded = Map.empty"
    by (simp_all add: grounded_def blank_def fresh_def)
  have a: "active (updatePhysics 0.1 grounded)" unfolding u using g by simp
  have j: "\<not> onGround (player (dispatch (KeyDown Space) (setupInputs grounded)))"
    by (simp add: setupInputs_def handleJump_def grounded_def)
  from onGround_cleared_only_by_jump [of "player grounded" AxisY "blocks grounded" "0.1"
      "input grounded" grounded 100 "KeyDown Space"] g a
  have "player (handleJump (updatePhysics 0.1 grounded)) =
          (player (updatePhysics 0.1 grounded))
            \<lparr>velocity := (velocity (player (updatePhysics 0.1 grounded)))\<lparr>yv := JUMP_FORCE\<rparr>,
             onGround := False, canDoubleJump := True\<rparr>"
    and "onGround (player (updatePhysics 0.1 grounded))"
    by simp_all
  then show ?thesis using g a j u by (simp add: setupInputs_def)
qed

text \<open>
  C10. A physics step, and a whole frame, started from a state whose forward/back intent
  \<open>input.f\<close> has been replaced by any value \<open>v\<close> ends in the state of the unchanged run
  with \<open>input.f\<close> replaced by \<open>v\<close>: player, particles, grid, chunk ledger, stats and
  callbacks are the same in both runs.
\<close>

theorem forward_intent_never_read:
  "updatePhysics dt (s\<lparr>input := (input s)\<lparr>input_f := v\<rparr>\<rparr>)
     = (updatePhysics dt s)\<lparr>input := (input s)\<lparr>input_f := v\<rparr>\<rparr>
   \<and> animate now (s\<lparr>input := (input s)\<lparr>input_f := v\<rparr>\<rparr>)
     = (animate now s)\<lparr>input := (input s)\<lparr>input_f := v\<rparr>\<rparr>
   \<and> simState (updatePhysics dt (s\<lparr>input := (input s)\<lparr>input_f := v\<rparr>\<rparr>))
     = simState (updatePhysics dt s)
   \<and> simState (animate now (s\<lparr>input := (input s)\<lparr>input_f := v\<rparr>\<rparr>))
     = simState (animate now s)"
  by (simp add: updatePhysics_input_f animate_input_f simState_def)

end
